theory Spec2Isabelle
  imports Complex_Main "HOL-Library.Multiset"
begin


section \<open>JavaScript values\<close>

subsection \<open>Numbers and dates\<close>

text \<open>
  The module \<^verbatim>\<open>src/services/dataProcessor.ts\<close> works on untyped values
  (\<^verbatim>\<open>jsonData: any\<close>), on numbers (IEEE 754 doubles) and on \<^verbatim>\<open>Date\<close> objects.

  A number is \<open>NaN\<close>, an infinity or a finite value, held as a rational; \<open>-0\<close> and
  \<open>+0\<close> are one value (nothing in the module tells them apart). Arithmetic rounds its
  exact result to the nearest double, ties to even (\<open>fl\<close>).
\<close>

datatype jsnum = NaN | PInf | NInf | Fin rat

definition pow2 :: "int \<Rightarrow> rat" where
  "pow2 k = (if 0 \<le> k then 2 ^ nat k else 1 / 2 ^ nat (- k))"

function log2_big :: "rat \<Rightarrow> int" where
  "log2_big q = (if q < 2 then 0 else 1 + log2_big (q / 2))"
  by pat_completeness auto
termination
proof (relation "measure (\<lambda>q. nat \<lfloor>q\<rfloor>)")
  show "wf (measure (\<lambda>q::rat. nat \<lfloor>q\<rfloor>))" by simp
next
  fix q :: rat
  assume "\<not> q < 2"
  then have "of_int (\<lfloor>q / 2\<rfloor> + 1) \<le> q"
    using of_int_floor_le [of "q / 2"] by simp
  then have "\<lfloor>q / 2\<rfloor> + 1 \<le> \<lfloor>q\<rfloor>" by (simp only: le_floor_iff)
  moreover have "0 \<le> \<lfloor>q / 2\<rfloor>" using \<open>\<not> q < 2\<close> by simp
  ultimately have "nat \<lfloor>q / 2\<rfloor> < nat \<lfloor>q\<rfloor>" by linarith
  then show "(q / 2, q) \<in> measure (\<lambda>q. nat \<lfloor>q\<rfloor>)" by (simp only: in_measure)
qed

function log2_small :: "rat \<Rightarrow> int" where
  "log2_small q = (if q \<le> 0 \<or> 1 \<le> q then 0 else log2_small (2 * q) - 1)"
  by pat_completeness auto
termination
proof (relation "measure (\<lambda>q. nat \<lfloor>1 / q\<rfloor>)")
  show "wf (measure (\<lambda>q::rat. nat \<lfloor>1 / q\<rfloor>))" by simp
next
  fix q :: rat
  assume a: "\<not> (q \<le> 0 \<or> 1 \<le> q)"
  then have q: "0 < q" "q < 1" by auto
  define x where "x = 1 / q"
  have x1: "1 < x" using q by (simp add: x_def)
  have half: "1 / (2 * q) = x / 2" by (simp add: x_def)
  have "\<lfloor>x / 2\<rfloor> < \<lfloor>x\<rfloor>"
  proof (cases "x < 2")
    case True
    then have "\<lfloor>x / 2\<rfloor> = 0" using x1 by (simp add: floor_eq_iff)
    moreover have "1 \<le> \<lfloor>x\<rfloor>" using x1 by (simp add: le_floor_iff)
    ultimately show ?thesis by simp
  next
    case False
    then have "of_int (\<lfloor>x / 2\<rfloor> + 1) \<le> x"
      using of_int_floor_le [of "x / 2"] by simp
    then have "\<lfloor>x / 2\<rfloor> + 1 \<le> \<lfloor>x\<rfloor>" by (simp only: le_floor_iff)
    then show ?thesis by simp
  qed
  moreover have "0 \<le> \<lfloor>x / 2\<rfloor>" using x1 by simp
  ultimately have "nat \<lfloor>x / 2\<rfloor> < nat \<lfloor>x\<rfloor>" by linarith
  then show "(2 * q, q) \<in> measure (\<lambda>q. nat \<lfloor>1 / q\<rfloor>)"
    by (simp only: in_measure half x_def [symmetric])
qed

declare log2_big.simps [simp del] log2_small.simps [simp del]

text \<open>\<open>ilog2 q\<close> is the binary exponent of a positive \<open>q\<close>: \<open>2 ^ e \<le> q < 2 ^ (e + 1)\<close>.\<close>

definition ilog2 :: "rat \<Rightarrow> int" where
  "ilog2 q = (if 1 \<le> q then log2_big q else log2_small q)"

definition round_even :: "rat \<Rightarrow> int" where
  "round_even x =
     (let f = \<lfloor>x\<rfloor>; d = x - of_int f
      in if d < 1 / 2 then f else if 1 / 2 < d then f + 1
         else if even f then f else f + 1)"

text \<open>
  Rounding to double precision: 53 significant bits, exponents down to the subnormal
  range (unit \<open>2 ^ (-1074)\<close>), overflow to an infinity from \<open>2 ^ 1024\<close> on.
\<close>

definition fl :: "rat \<Rightarrow> jsnum" where
  "fl q =
     (if q = 0 then Fin 0
      else let e = max (ilog2 \<bar>q\<bar>) (- 1022);
               u = pow2 (e - 52);
               v = of_int (round_even (q / u)) * u
           in if pow2 1024 \<le> \<bar>v\<bar> then (if 0 < q then PInf else NInf) else Fin v)"

text \<open>The operator \<^verbatim>\<open>+\<close> on two numbers.\<close>

fun num_add :: "jsnum \<Rightarrow> jsnum \<Rightarrow> jsnum" where
  "num_add (Fin a) (Fin b) = fl (a + b)"
| "num_add NaN _ = NaN"
| "num_add _ NaN = NaN"
| "num_add PInf NInf = NaN"
| "num_add NInf PInf = NaN"
| "num_add PInf _ = PInf"
| "num_add _ PInf = PInf"
| "num_add NInf _ = NInf"
| "num_add _ NInf = NInf"

text \<open>The operator \<^verbatim>\<open>/\<close> with a positive constant on the right (\<^verbatim>\<open>1000\<close>, \<^verbatim>\<open>1e7\<close>).\<close>

fun div_by :: "jsnum \<Rightarrow> rat \<Rightarrow> jsnum" where
  "div_by (Fin q) c = fl (q / c)"
| "div_by x c = x"

text \<open>\<^verbatim>\<open>Math.round\<close>: the nearest integer, a half rounding up.\<close>

fun math_round :: "jsnum \<Rightarrow> jsnum" where
  "math_round (Fin q) = Fin (of_int \<lfloor>q + 1 / 2\<rfloor>)"
| "math_round x = x"

text \<open>A number in a condition: \<open>0\<close> and \<open>NaN\<close> are falsy.\<close>

fun num_truthy :: "jsnum \<Rightarrow> bool" where
  "num_truthy NaN = False"
| "num_truthy (Fin q) = (q \<noteq> 0)"
| "num_truthy _ = True"

text \<open>
  A \<^verbatim>\<open>Date\<close> holds a time value in milliseconds or is an Invalid Date (time value
  \<open>NaN\<close>). Comparing two dates with \<^verbatim>\<open><\<close> or \<^verbatim>\<open>>\<close> compares the time values, and
  every comparison with \<open>NaN\<close> is false.
\<close>

datatype jsdate = InvalidDate | Time int

fun date_lt :: "jsdate \<Rightarrow> jsdate \<Rightarrow> bool" where
  "date_lt (Time a) (Time b) = (a < b)"
| "date_lt _ _ = False"

fun isNaN_getTime :: "jsdate \<Rightarrow> bool" where
  "isNaN_getTime InvalidDate = True"
| "isNaN_getTime (Time t) = False"

text \<open>The largest time value of a \<^verbatim>\<open>Date\<close>, \<^verbatim>\<open>8640000000000000\<close>.\<close>

definition max_time :: int where
  "max_time = 8640000000000000"

subsection \<open>Maps, sets and arrays\<close>

text \<open>
  A \<^verbatim>\<open>Map\<close> keeps its entries in insertion order: \<^verbatim>\<open>set\<close> on a key it holds replaces
  the value in place, on a new key appends the entry. A \<^verbatim>\<open>Set\<close> likewise.
\<close>

fun map_get :: "('k \<times> 'v) list \<Rightarrow> 'k \<Rightarrow> 'v option" where
  "map_get [] k = None"
| "map_get ((k', v) # m) k = (if k' = k then Some v else map_get m k)"

fun map_set :: "('k \<times> 'v) list \<Rightarrow> 'k \<Rightarrow> 'v \<Rightarrow> ('k \<times> 'v) list" where
  "map_set [] k v = [(k, v)]"
| "map_set ((k', v') # m) k v = (if k' = k then (k, v) # m else (k', v') # map_set m k v)"

definition set_add :: "'k list \<Rightarrow> 'k \<Rightarrow> 'k list" where
  "set_add s k = (if k \<in> set s then s else s @ [k])"

text \<open>\<^verbatim>\<open>m.set(k, (m.get(k) || 0) + 1)\<close>\<close>

definition increment :: "('k \<times> nat) list \<Rightarrow> 'k \<Rightarrow> ('k \<times> nat) list" where
  "increment m k = map_set m k ((case map_get m k of None \<Rightarrow> 0 | Some c \<Rightarrow> c) + 1)"

text \<open>
  \<^verbatim>\<open>Array.prototype.sort\<close> with a comparator, as an insertion sort: \<open>gt a b\<close> says that
  the comparator's result on \<open>(a, b)\<close> is positive. The sort is stable, as ECMAScript
  requires.
\<close>

fun sort_insert :: "('a \<Rightarrow> 'a \<Rightarrow> bool) \<Rightarrow> 'a \<Rightarrow> 'a list \<Rightarrow> 'a list" where
  "sort_insert gt x [] = [x]"
| "sort_insert gt x (y # ys) = (if gt x y then y # sort_insert gt x ys else x # y # ys)"

fun array_sort :: "('a \<Rightarrow> 'a \<Rightarrow> bool) \<Rightarrow> 'a list \<Rightarrow> 'a list" where
  "array_sort gt [] = []"
| "array_sort gt (x # xs) = sort_insert gt x (array_sort gt xs)"

subsection \<open>Untyped values\<close>

text \<open>
  A value of type \<^verbatim>\<open>any\<close>, as \<^verbatim>\<open>JSON.parse\<close> returns it and as \<^verbatim>\<open>parseTimelineData\<close>
  takes it. An object is the list of its own properties in enumeration order, with
  distinct keys. A string is the list of its code units; the model has the code units
  below 256, so the degree sign is \<open>CHR 0xB0\<close>.
\<close>

datatype jsval =
    JUndefined
  | JNull
  | JBool bool
  | JNum jsnum
  | JStr string
  | JArr "jsval list"
  | JObj "(string \<times> jsval) list"

datatype exn = TypeError

fun truthy :: "jsval \<Rightarrow> bool" where
  "truthy JUndefined = False"
| "truthy JNull = False"
| "truthy (JBool b) = b"
| "truthy (JNum n) = num_truthy n"
| "truthy (JStr s) = (s \<noteq> [])"
| "truthy (JArr xs) = True"
| "truthy (JObj kvs) = True"

text \<open>\<^verbatim>\<open>a || b\<close>\<close>

definition js_or :: "jsval \<Rightarrow> jsval \<Rightarrow> jsval" where
  "js_or a b = (if truthy a then a else b)"

fun nullish :: "jsval \<Rightarrow> bool" where
  "nullish JUndefined = True"
| "nullish JNull = True"
| "nullish _ = False"

text \<open>
  \<^verbatim>\<open>v.k\<close> on a value that is neither \<^verbatim>\<open>null\<close> nor \<^verbatim>\<open>undefined\<close>, for the property names
  the module reads: an object gives its own property, and no prototype (of objects,
  arrays, strings, numbers or booleans) has a property of one of these names, so every
  other value gives \<^verbatim>\<open>undefined\<close>. On \<^verbatim>\<open>null\<close> and \<^verbatim>\<open>undefined\<close> the access throws; the
  model checks for them where the source can meet them (\<open>processItem\<close>, \<open>path_points\<close>).
\<close>

fun js_get :: "jsval \<Rightarrow> string \<Rightarrow> jsval" where
  "js_get (JObj kvs) k = (case map_get kvs k of Some v \<Rightarrow> v | None \<Rightarrow> JUndefined)"
| "js_get _ k = JUndefined"

text \<open>\<^verbatim>\<open>v?.k\<close>\<close>

definition js_get_opt :: "jsval \<Rightarrow> string \<Rightarrow> jsval" where
  "js_get_opt v k = (if nullish v then JUndefined else js_get v k)"

text \<open>
  Converting an object to a primitive (\<^verbatim>\<open>new Date(v)\<close>, \<^verbatim>\<open>v / 1000\<close>, a property key)
  calls its \<^verbatim>\<open>valueOf\<close> and \<^verbatim>\<open>toString\<close>. An own property \<^verbatim>\<open>toString\<close> of a parsed object
  is not a function, and then the conversion throws a \<^verbatim>\<open>TypeError\<close>; an array converts
  its elements.
\<close>

fun unprintable :: "jsval \<Rightarrow> bool" where
  "unprintable (JObj kvs) = (map_get kvs ''toString'' \<noteq> None)"
| "unprintable (JArr xs) = list_ex unprintable xs"
| "unprintable _ = False"

subsection \<open>Values as text\<close>

text \<open>Decimal digits, and a natural number in a template literal or a property key.\<close>

definition is_digit :: "char \<Rightarrow> bool" where
  "is_digit c = (c \<in> set ''0123456789'')"

definition digits_val :: "string \<Rightarrow> nat" where
  "digits_val ds = foldl (\<lambda>n c. 10 * n + (of_char c - 48)) 0 ds"

definition pow10 :: "int \<Rightarrow> rat" where
  "pow10 k = (if 0 \<le> k then 10 ^ nat k else 1 / 10 ^ nat (- k))"

function show_nat :: "nat \<Rightarrow> string" where
  "show_nat n =
     (if n < 10 then [''0123456789'' ! n]
      else show_nat (n div 10) @ [''0123456789'' ! (n mod 10)])"
  by pat_completeness auto
termination
  by (relation "measure id") auto

declare show_nat.simps [simp del]

text \<open>\<open>ilog10 q\<close> is the decimal exponent of a positive \<open>q\<close>: \<open>10 ^ e \<le> q < 10 ^ (e + 1)\<close>.\<close>

function log10_big :: "rat \<Rightarrow> int" where
  "log10_big q = (if q < 10 then 0 else 1 + log10_big (q / 10))"
  by pat_completeness auto
termination
proof (relation "measure (\<lambda>q. nat \<lfloor>q\<rfloor>)")
  show "wf (measure (\<lambda>q::rat. nat \<lfloor>q\<rfloor>))" by simp
next
  fix q :: rat
  assume "\<not> q < 10"
  then have "of_int (\<lfloor>q / 10\<rfloor> + 1) \<le> q"
    using of_int_floor_le [of "q / 10"] by simp
  then have "\<lfloor>q / 10\<rfloor> + 1 \<le> \<lfloor>q\<rfloor>" by (simp only: le_floor_iff)
  moreover have "0 \<le> \<lfloor>q / 10\<rfloor>" using \<open>\<not> q < 10\<close> by simp
  ultimately have "nat \<lfloor>q / 10\<rfloor> < nat \<lfloor>q\<rfloor>" by linarith
  then show "(q / 10, q) \<in> measure (\<lambda>q. nat \<lfloor>q\<rfloor>)" by (simp only: in_measure)
qed

function log10_small :: "rat \<Rightarrow> int" where
  "log10_small q = (if q \<le> 0 \<or> 1 \<le> q then 0 else log10_small (10 * q) - 1)"
  by pat_completeness auto
termination
proof (relation "measure (\<lambda>q. nat \<lfloor>1 / q\<rfloor>)")
  show "wf (measure (\<lambda>q::rat. nat \<lfloor>1 / q\<rfloor>))" by simp
next
  fix q :: rat
  assume a: "\<not> (q \<le> 0 \<or> 1 \<le> q)"
  then have q: "0 < q" "q < 1" by auto
  define x where "x = 1 / q"
  have x1: "1 < x" using q by (simp add: x_def)
  have tenth: "1 / (10 * q) = x / 10" by (simp add: x_def)
  have "\<lfloor>x / 10\<rfloor> < \<lfloor>x\<rfloor>"
  proof (cases "x < 10")
    case True
    then have "\<lfloor>x / 10\<rfloor> = 0" using x1 by (simp add: floor_eq_iff)
    moreover have "1 \<le> \<lfloor>x\<rfloor>" using x1 by (simp add: le_floor_iff)
    ultimately show ?thesis by simp
  next
    case False
    then have "of_int (\<lfloor>x / 10\<rfloor> + 1) \<le> x"
      using of_int_floor_le [of "x / 10"] by simp
    then have "\<lfloor>x / 10\<rfloor> + 1 \<le> \<lfloor>x\<rfloor>" by (simp only: le_floor_iff)
    then show ?thesis by simp
  qed
  moreover have "0 \<le> \<lfloor>x / 10\<rfloor>" using x1 by simp
  ultimately have "nat \<lfloor>x / 10\<rfloor> < nat \<lfloor>x\<rfloor>" by linarith
  then show "(10 * q, q) \<in> measure (\<lambda>q. nat \<lfloor>1 / q\<rfloor>)"
    by (simp only: in_measure tenth x_def [symmetric])
qed

declare log10_big.simps [simp del] log10_small.simps [simp del]

definition ilog10 :: "rat \<Rightarrow> int" where
  "ilog10 q = (if 1 \<le> q then log10_big q else log10_small q)"

text \<open>
  \<^verbatim>\<open>Number::toString\<close> writes a positive number \<open>q\<close> with the digits of \<open>s\<close> and the
  decimal point after the \<open>n\<close>-th of them, where \<open>s\<close> has \<open>k\<close> digits, \<open>s * 10 ^ (n - k)\<close>
  rounds to \<open>q\<close>, and \<open>k\<close> is as small as can be. Of the numbers with \<open>k\<close> digits only the
  two next to \<open>q\<close>, below and above, need to be tried (\<open>decimal_candidates\<close>); when both
  round to \<open>q\<close> the nearer is taken, as the engines do. Seventeen digits are enough for
  every double.
\<close>

definition decimal_value :: "nat \<Rightarrow> int \<times> nat \<Rightarrow> rat" where
  "decimal_value k c = of_nat (snd c) * pow10 (fst c - int k)"

definition decimal_candidates :: "rat \<Rightarrow> nat \<Rightarrow> (int \<times> nat) \<times> (int \<times> nat)" where
  "decimal_candidates q k =
     (let n = ilog10 q + 1;
          lo = nat \<lfloor>q / pow10 (n - int k)\<rfloor>
      in ((n, lo), (if lo + 1 = 10 ^ k then (n + 1, 10 ^ (k - 1)) else (n, lo + 1))))"

definition round_trips :: "rat \<Rightarrow> nat \<Rightarrow> int \<times> nat \<Rightarrow> bool" where
  "round_trips q k c = (fl (decimal_value k c) = Fin q)"

definition nearest_decimal :: "rat \<Rightarrow> nat \<Rightarrow> int \<times> nat" where
  "nearest_decimal q k =
     (let lo = fst (decimal_candidates q k);
          hi = snd (decimal_candidates q k);
          below = q - decimal_value k lo;
          above = decimal_value k hi - q
      in if round_trips q k lo
            \<and> (\<not> round_trips q k hi \<or> below < above \<or> (below = above \<and> even (snd lo)))
         then lo else hi)"

definition shortest_decimal :: "rat \<Rightarrow> nat \<times> int \<times> nat" where
  "shortest_decimal q =
     (case List.find (\<lambda>k. round_trips q k (fst (decimal_candidates q k))
                          \<or> round_trips q k (snd (decimal_candidates q k))) [1..<17] of
        Some k \<Rightarrow> (k, nearest_decimal q k)
      | None \<Rightarrow> (17, nearest_decimal q 17))"

definition positive_to_string :: "rat \<Rightarrow> string" where
  "positive_to_string q =
     (let k = fst (shortest_decimal q);
          n = fst (snd (shortest_decimal q));
          ds = show_nat (snd (snd (shortest_decimal q)));
          ex = (if 0 \<le> n - 1 then ''e+'' else ''e-'') @ show_nat (nat \<bar>n - 1\<bar>)
      in if int k \<le> n \<and> n \<le> 21 then ds @ replicate (nat (n - int k)) (CHR ''0'')
         else if 0 < n \<and> n \<le> 21 then take (nat n) ds @ ''.'' @ drop (nat n) ds
         else if - 6 < n \<and> n \<le> 0 then ''0.'' @ replicate (nat (- n)) (CHR ''0'') @ ds
         else if k = 1 then ds @ ex
         else take 1 ds @ ''.'' @ drop 1 ds @ ex)"

fun number_to_string :: "jsnum \<Rightarrow> string" where
  "number_to_string NaN = ''NaN''"
| "number_to_string PInf = ''Infinity''"
| "number_to_string NInf = ''-Infinity''"
| "number_to_string (Fin q) =
     (if q = 0 then ''0''
      else if q < 0 then ''-'' @ positive_to_string (- q)
      else positive_to_string q)"

text \<open>
  \<^verbatim>\<open>ToString\<close> of a value that has a primitive value. An object prints as
  \<^verbatim>\<open>[object Object]\<close>; an array prints its elements with commas between them, \<^verbatim>\<open>null\<close>
  and \<^verbatim>\<open>undefined\<close> as nothing.
\<close>

fun join_comma :: "string list \<Rightarrow> string" where
  "join_comma [] = []"
| "join_comma [s] = s"
| "join_comma (s # t # ss) = s @ '','' @ join_comma (t # ss)"

fun to_string :: "jsval \<Rightarrow> string" where
  "to_string JUndefined = ''undefined''"
| "to_string JNull = ''null''"
| "to_string (JBool b) = (if b then ''true'' else ''false'')"
| "to_string (JNum n) = number_to_string n"
| "to_string (JStr s) = s"
| "to_string (JArr xs) = join_comma (map (\<lambda>x. if nullish x then [] else to_string x) xs)"
| "to_string (JObj kvs) = ''[object Object]''"

text \<open>White space as \<^verbatim>\<open>\s\<close>, \<^verbatim>\<open>trim\<close> and \<^verbatim>\<open>parseFloat\<close> read it.\<close>

definition is_space :: "char \<Rightarrow> bool" where
  "is_space c = (c \<in> set [CHR 0x09, CHR 0x0A, CHR 0x0B, CHR 0x0C, CHR 0x0D, CHR 0x20, CHR 0xA0])"

fun strip_sign :: "string \<Rightarrow> string" where
  "strip_sign [] = []"
| "strip_sign (c # cs) = (if c = CHR ''-'' \<or> c = CHR ''+'' then cs else c # cs)"

definition trim :: "string \<Rightarrow> string" where
  "trim s = rev (dropWhile is_space (rev (dropWhile is_space s)))"

text \<open>
  \<^verbatim>\<open>ToNumber\<close> of a string: white space around it is dropped; the empty string is 0; a
  decimal literal with an optional sign, \<^verbatim>\<open>Infinity\<close> with an optional sign, or a literal
  in base 16, 8 or 2 with its prefix gives its value, rounded; any other string gives
  \<open>NaN\<close>.
\<close>

definition digit_of :: "char \<Rightarrow> nat" where
  "digit_of c =
     (if is_digit c then of_char c - 48
      else if c \<in> set ''abcdef'' then of_char c - 87
      else if c \<in> set ''ABCDEF'' then of_char c - 55
      else 16)"

definition radix_literal :: "nat \<Rightarrow> string \<Rightarrow> jsnum" where
  "radix_literal r ds =
     (if ds \<noteq> [] \<and> list_all (\<lambda>c. digit_of c < r) ds
      then fl (of_nat (foldl (\<lambda>n c. r * n + digit_of c) 0 ds))
      else NaN)"

fun exponent_whole :: "string \<Rightarrow> int option" where
  "exponent_whole [] = Some 0"
| "exponent_whole (c # cs) =
     (if (c = CHR ''e'' \<or> c = CHR ''E'') \<and> strip_sign cs \<noteq> [] \<and> list_all is_digit (strip_sign cs)
      then Some (if take 1 cs = ''-'' then - int (digits_val (strip_sign cs))
                 else int (digits_val (strip_sign cs)))
      else None)"

definition decimal_literal :: "string \<Rightarrow> jsnum" where
  "decimal_literal t =
     (let u = strip_sign t
      in if u = ''Infinity'' then (if take 1 t = ''-'' then NInf else PInf)
         else let d1 = takeWhile is_digit u;
                  r1 = dropWhile is_digit u;
                  d2 = (if take 1 r1 = ''.'' then takeWhile is_digit (drop 1 r1) else []);
                  r2 = (if take 1 r1 = ''.'' then dropWhile is_digit (drop 1 r1) else r1)
              in if d1 = [] \<and> d2 = [] then NaN
                 else case exponent_whole r2 of
                        None \<Rightarrow> NaN
                      | Some e \<Rightarrow>
                          (let m = of_nat (digits_val (d1 @ d2)) * pow10 (e - int (length d2))
                           in fl (if take 1 t = ''-'' then - m else m)))"

definition string_to_number :: "string \<Rightarrow> jsnum" where
  "string_to_number s =
     (let t = trim s
      in if t = [] then Fin 0
         else if take 2 t = ''0x'' \<or> take 2 t = ''0X'' then radix_literal 16 (drop 2 t)
         else if take 2 t = ''0o'' \<or> take 2 t = ''0O'' then radix_literal 8 (drop 2 t)
         else if take 2 t = ''0b'' \<or> take 2 t = ''0B'' then radix_literal 2 (drop 2 t)
         else decimal_literal t)"

text \<open>
  \<^verbatim>\<open>ToPrimitive\<close> and \<^verbatim>\<open>ToNumber\<close> of a value that has a primitive value: an object or
  an array becomes the string it prints as.
\<close>

fun to_primitive :: "jsval \<Rightarrow> jsval" where
  "to_primitive (JArr xs) = JStr (to_string (JArr xs))"
| "to_primitive (JObj kvs) = JStr (to_string (JObj kvs))"
| "to_primitive v = v"

fun to_number :: "jsval \<Rightarrow> jsnum" where
  "to_number JUndefined = NaN"
| "to_number JNull = Fin 0"
| "to_number (JBool b) = Fin (if b then 1 else 0)"
| "to_number (JNum n) = n"
| "to_number (JStr s) = string_to_number s"
| "to_number (JArr xs) = string_to_number (to_string (JArr xs))"
| "to_number (JObj kvs) = string_to_number (to_string (JObj kvs))"

fun is_string :: "jsval \<Rightarrow> bool" where
  "is_string (JStr s) = True"
| "is_string _ = False"

text \<open>
  The operator \<^verbatim>\<open>+\<close> on two values: with a string among the two primitive values it joins
  the texts, and else it adds the numbers. It throws when an operand has no primitive
  value.
\<close>

definition plus_primitive :: "jsval \<Rightarrow> jsval \<Rightarrow> jsval" where
  "plus_primitive a b =
     (if is_string a \<or> is_string b then JStr (to_string a @ to_string b)
      else JNum (num_add (to_number a) (to_number b)))"

definition js_plus :: "jsval \<Rightarrow> jsval \<Rightarrow> exn + jsval" where
  "js_plus a b =
     (if unprintable a \<or> unprintable b then Inl TypeError
      else Inr (plus_primitive (to_primitive a) (to_primitive b)))"

subsection \<open>Keys of a \<^verbatim>\<open>Map\<close>\<close>

text \<open>
  A \<^verbatim>\<open>Map\<close> and a \<^verbatim>\<open>Set\<close> compare their keys with SameValueZero: two primitive values are
  one key when they are equal (\<open>NaN\<close> is equal to itself here), two objects only when
  they are one object. A key is therefore a primitive value, or an array or object
  with its address; two keys of the model that differ in the address or in the contents
  are two objects.
\<close>

datatype jskey =
    KUndefined
  | KNull
  | KBool bool
  | KNum jsnum
  | KStr string
  | KArr nat "jsval list"
  | KObj nat "(string \<times> jsval) list"

fun key_value :: "jskey \<Rightarrow> jsval" where
  "key_value KUndefined = JUndefined"
| "key_value KNull = JNull"
| "key_value (KBool b) = JBool b"
| "key_value (KNum n) = JNum n"
| "key_value (KStr s) = JStr s"
| "key_value (KArr a xs) = JArr xs"
| "key_value (KObj a kvs) = JObj kvs"

text \<open>\<^verbatim>\<open>ToPropertyKey\<close>: the name under which an object holds a property.\<close>

definition property_key :: "jskey \<Rightarrow> exn + string" where
  "property_key k =
     (if unprintable (key_value k) then Inl TypeError else Inr (to_string (key_value k)))"

section \<open>The aggregator: \<^verbatim>\<open>calculateStats\<close>\<close>

text \<open>
  \<^verbatim>\<open>ProcessedEvent\<close> and \<^verbatim>\<open>DashboardStats\<close> after \<^verbatim>\<open>src/types.ts\<close>. An optional field
  is an \<open>option\<close>. The field \<^verbatim>\<open>id\<close> is named \<open>eid\<close>. TypeScript's types are erased at
  run time, and the normalizer stores the name of a place, the label of an activity,
  its distance, a place identifier and legacy coordinates as the document has them, so
  \<open>title\<close>, \<open>activityType\<close>, \<open>distanceMeters\<close>, \<open>placeId\<close>, \<open>lat\<close> and \<open>lng\<close> hold any
  value (\<^verbatim>\<open>undefined\<close> when absent); the first two are keys of the aggregator's maps. The
  city comes from \<^verbatim>\<open>extractCity\<close> and is a string or absent, and the two times are
  \<^verbatim>\<open>Date\<close> objects.
\<close>

datatype EventType = VISIT | MOVE | POINT

record ProcessedEvent =
  eid :: string
  type :: EventType
  title :: jskey
  subtitle :: string
  startTime :: jsdate
  endTime :: jsdate
  lat :: jsval
  lng :: jsval
  distanceMeters :: jsval
  city :: "string option"
  activityType :: jskey
  placeId :: jsval
  placeTypes :: "string list option"
  semanticType :: "string option"

record DateRange =
  range_start :: jsdate
  range_end :: jsdate

record DashboardStats =
  totalDistanceKm :: jsnum
  totalVisits :: nat
  uniquePlaces :: nat
  topCities :: "(string \<times> nat) list"
  activityBreakdown :: "(jskey \<times> nat) list"
  dateRange :: DateRange
  placeVisitCounts :: "(string \<times> nat) list"

text \<open>The accumulators of the loop over the events.\<close>

record Acc =
  totalDistanceMeters :: jsval
  placeCounts :: "(string \<times> nat) list"
  visitCountsByName :: "(jskey \<times> nat) list"
  activityCounts :: "(jskey \<times> nat) list"
  uniquePlaceTitles :: "jskey list"
  minDate :: jsdate
  maxDate :: jsdate

definition init_acc :: Acc where
  "init_acc = \<lparr>totalDistanceMeters = JNum (Fin 0), placeCounts = [], visitCountsByName = [],
     activityCounts = [], uniquePlaceTitles = [],
     minDate = Time max_time, maxDate = Time (- max_time)\<rparr>"

text \<open>An optional string in a condition: \<^verbatim>\<open>undefined\<close> and the empty string are falsy.\<close>

fun str_truthy :: "string option \<Rightarrow> bool" where
  "str_truthy None = False"
| "str_truthy (Some s) = (s \<noteq> [])"

definition step_dates :: "ProcessedEvent \<Rightarrow> Acc \<Rightarrow> Acc" where
  "step_dates e a =
     a\<lparr>minDate := (if date_lt (startTime e) (minDate a) then startTime e else minDate a),
       maxDate := (if date_lt (maxDate a) (endTime e) then endTime e else maxDate a)\<rparr>"

text \<open>\<^verbatim>\<open>totalDistanceMeters += e.distanceMeters\<close> throws when the distance has no primitive value.\<close>

definition step_distance :: "ProcessedEvent \<Rightarrow> Acc \<Rightarrow> exn + Acc" where
  "step_distance e a =
     (if truthy (distanceMeters e)
      then case js_plus (totalDistanceMeters a) (distanceMeters e) of
             Inl x \<Rightarrow> Inl x
           | Inr meters \<Rightarrow> Inr (a\<lparr>totalDistanceMeters := meters\<rparr>)
      else Inr a)"

definition step_visit :: "ProcessedEvent \<Rightarrow> Acc \<Rightarrow> Acc" where
  "step_visit e a =
     (if type e = VISIT
      then let a1 = a\<lparr>uniquePlaceTitles := set_add (uniquePlaceTitles a) (title e),
                        visitCountsByName := increment (visitCountsByName a) (title e)\<rparr>
           in if str_truthy (city e)
              then a1\<lparr>placeCounts := increment (placeCounts a1) (the (city e))\<rparr>
              else a1
      else a)"

definition step_activity :: "ProcessedEvent \<Rightarrow> Acc \<Rightarrow> Acc" where
  "step_activity e a =
     (if type e = MOVE \<and> truthy (key_value (activityType e))
      then a\<lparr>activityCounts := increment (activityCounts a) (activityType e)\<rparr>
      else a)"

text \<open>The body of \<^verbatim>\<open>events.forEach\<close>, and the loop.\<close>

definition step :: "Acc \<Rightarrow> ProcessedEvent \<Rightarrow> exn + Acc" where
  "step a e =
     (case step_distance e (step_dates e a) of
        Inl x \<Rightarrow> Inl x
      | Inr a1 \<Rightarrow> Inr (step_activity e (step_visit e a1)))"

fun forEach :: "Acc \<Rightarrow> ProcessedEvent list \<Rightarrow> exn + Acc" where
  "forEach a [] = Inr a"
| "forEach a (e # es) = (case step a e of Inl x \<Rightarrow> Inl x | Inr a1 \<Rightarrow> forEach a1 es)"

text \<open>
  \<^verbatim>\<open>Object.fromEntries\<close> defines one property for every entry, in the order of the
  entries: the key is converted to a property name, which throws when the key has no
  primitive value, and an entry whose name the object has already replaces the value of
  that property. The own properties of an object are enumerated with the array indices
  first, in ascending order, and then the other names in the order of their creation.
\<close>

fun define_properties :: "(string \<times> 'v) list \<Rightarrow> (jskey \<times> 'v) list \<Rightarrow> exn + (string \<times> 'v) list" where
  "define_properties obj [] = Inr obj"
| "define_properties obj (entry # entries) =
     (case property_key (fst entry) of
        Inl x \<Rightarrow> Inl x
      | Inr name \<Rightarrow> define_properties (map_set obj name (snd entry)) entries)"

definition is_array_index :: "string \<Rightarrow> bool" where
  "is_array_index name =
     (name \<noteq> [] \<and> list_all is_digit name \<and> show_nat (digits_val name) = name
      \<and> digits_val name < 2 ^ 32 - 1)"

definition own_properties :: "(string \<times> 'v) list \<Rightarrow> (string \<times> 'v) list" where
  "own_properties obj =
     sort_key (\<lambda>p. digits_val (fst p)) (filter (\<lambda>p. is_array_index (fst p)) obj)
     @ filter (\<lambda>p. \<not> is_array_index (fst p)) obj"

definition object_fromEntries :: "(jskey \<times> 'v) list \<Rightarrow> exn + (string \<times> 'v) list" where
  "object_fromEntries entries =
     (case define_properties [] entries of
        Inl x \<Rightarrow> Inl x
      | Inr obj \<Rightarrow> Inr (own_properties obj))"

text \<open>
  \<^verbatim>\<open>calculateStats\<close>. The argument \<open>now\<close> is the clock's reading, \<^verbatim>\<open>new Date()\<close>,
  which only the empty list uses (its two readings are taken as one). The function
  throws when the loop or \<^verbatim>\<open>Object.fromEntries\<close> does. The total distance is a number or,
  after a distance that is not a number, a string; the division converts it to a number.
\<close>

definition calculateStats :: "jsdate \<Rightarrow> ProcessedEvent list \<Rightarrow> exn + DashboardStats" where
  "calculateStats now events =
     (if events = []
      then Inr \<lparr>totalDistanceKm = Fin 0, totalVisits = 0, uniquePlaces = 0, topCities = [],
                 activityBreakdown = [],
                 dateRange = \<lparr>range_start = now, range_end = now\<rparr>,
                 placeVisitCounts = []\<rparr>
      else case forEach init_acc events of
             Inl x \<Rightarrow> Inl x
           | Inr a \<Rightarrow>
               (let breakdown = activityCounts a
                in case object_fromEntries (visitCountsByName a) of
                     Inl x \<Rightarrow> Inl x
                   | Inr counts \<Rightarrow>
                       Inr \<lparr>totalDistanceKm =
                              math_round (div_by (to_number (totalDistanceMeters a)) 1000),
                            totalVisits = length (filter (\<lambda>e. type e = VISIT) events),
                            uniquePlaces = length (uniquePlaceTitles a),
                            topCities =
                              take 5 (array_sort (\<lambda>a b. snd a < snd b) (placeCounts a)),
                            activityBreakdown =
                              (if breakdown = [] then [(KStr ''Recorded Points'', length events)]
                               else breakdown),
                            dateRange = \<lparr>range_start = minDate a, range_end = maxDate a\<rparr>,
                            placeVisitCounts = counts\<rparr>))"

section \<open>The normalizer: \<^verbatim>\<open>parseTimelineData\<close>\<close>

subsection \<open>Coordinates\<close>

definition degree :: char where
  "degree = CHR 0xB0"

fun exponent_part :: "string \<Rightarrow> int" where
  "exponent_part [] = 0"
| "exponent_part (c # cs) =
     (if c = CHR ''e'' \<or> c = CHR ''E''
      then let ds = takeWhile is_digit (strip_sign cs)
           in if ds = [] then 0
              else if take 1 cs = ''-'' then - int (digits_val ds) else int (digits_val ds)
      else 0)"

text \<open>
  \<^verbatim>\<open>parseFloat\<close>: leading white space is skipped, the longest prefix that is a decimal
  literal (or \<^verbatim>\<open>Infinity\<close>) is read, and its value is rounded to a double; there being no
  such prefix, the result is \<open>NaN\<close>.
\<close>

definition parseFloat :: "string \<Rightarrow> jsnum" where
  "parseFloat s =
     (let t = dropWhile is_space s;
          u = strip_sign t
      in if take 8 u = ''Infinity'' then (if take 1 t = ''-'' then NInf else PInf)
         else let d1 = takeWhile is_digit u;
                  r1 = dropWhile is_digit u;
                  d2 = (if take 1 r1 = ''.'' then takeWhile is_digit (drop 1 r1) else []);
                  r2 = (if take 1 r1 = ''.'' then dropWhile is_digit (drop 1 r1) else r1)
              in if d1 = [] \<and> d2 = [] then NaN
                 else let m = of_nat (digits_val (d1 @ d2))
                                * pow10 (exponent_part r2 - int (length d2))
                      in fl (if take 1 t = ''-'' then - m else m))"

text \<open>
  The pattern \<^verbatim>\<open>/([-+]?\d*\.?\d+)\<degree>,\s*([-+]?\d*\.?\d+)\<degree>/\<close> of \<^verbatim>\<open>parseLatLngString\<close>.
  \<open>is_decimal g\<close> says that all of \<open>g\<close> matches \<^verbatim>\<open>[-+]?\d*\.?\d+\<close>. A group holds no degree
  sign and a degree sign follows it, so a match that starts at the head of \<open>s\<close> has for
  its first group all of \<open>s\<close> up to the first degree sign, and likewise for the second
  group after the comma and the white space: \<open>match_here\<close>. \<^verbatim>\<open>String.prototype.match\<close>
  takes the leftmost start that matches: \<open>match_first\<close>.
\<close>

definition is_decimal :: "string \<Rightarrow> bool" where
  "is_decimal g =
     (let r = strip_sign g;
          d1 = takeWhile is_digit r;
          r1 = dropWhile is_digit r
      in if r1 = [] then d1 \<noteq> []
         else take 1 r1 = ''.'' \<and> drop 1 r1 \<noteq> [] \<and> list_all is_digit (drop 1 r1))"

definition match_here :: "string \<Rightarrow> (string \<times> string) option" where
  "match_here s =
     (let g1 = takeWhile (\<lambda>c. c \<noteq> degree) s;
          r1 = dropWhile (\<lambda>c. c \<noteq> degree) s
      in if is_decimal g1 \<and> take 1 (drop 1 r1) = '',''
         then let r2 = dropWhile is_space (drop 2 r1);
                  g2 = takeWhile (\<lambda>c. c \<noteq> degree) r2;
                  r3 = dropWhile (\<lambda>c. c \<noteq> degree) r2
              in if is_decimal g2 \<and> r3 \<noteq> [] then Some (g1, g2) else None
         else None)"

fun match_first :: "string \<Rightarrow> (string \<times> string) option" where
  "match_first [] = None"
| "match_first (c # cs) =
     (case match_here (c # cs) of Some m \<Rightarrow> Some m | None \<Rightarrow> match_first cs)"

fun parseLatLngString :: "jsval \<Rightarrow> (jsnum \<times> jsnum) option" where
  "parseLatLngString (JStr str) =
     (case match_first str of
        Some (g1, g2) \<Rightarrow> Some (parseFloat g1, parseFloat g2)
      | None \<Rightarrow> None)"
| "parseLatLngString _ = None"

fun e7ToFloat :: "jsval \<Rightarrow> jsnum" where
  "e7ToFloat (JNum e7) = div_by e7 10000000"
| "e7ToFloat (JStr e7) = div_by (parseFloat e7) 10000000"
| "e7ToFloat _ = Fin 0"

subsection \<open>Locating the record array\<close>

definition location_keys :: "string list" where
  "location_keys = [''lat'', ''latitude'', ''latE7'', ''latitudeE7'', ''placeVisit'',
     ''activitySegment'', ''geometry'', ''semanticSegments'', ''rawSignals'', ''latLng'',
     ''LatLng'']"

fun isLocationLike :: "jsval \<Rightarrow> bool" where
  "isLocationLike (JObj kvs) = list_ex (\<lambda>k. map_get kvs k \<noteq> None) location_keys"
| "isLocationLike _ = False"

definition priorityKeys :: "string list" where
  "priorityKeys = [''semanticSegments'', ''rawSignals'', ''timelineObjects'', ''locations'',
     ''features'']"

fun first_priority :: "jsval \<Rightarrow> string list \<Rightarrow> jsval list option" where
  "first_priority data [] = None"
| "first_priority data (key # keys) =
     (case js_get data key of
        JArr (x # xs) \<Rightarrow> Some (x # xs)
      | _ \<Rightarrow> first_priority data keys)"

text \<open>
  The recursive search, with its two variables \<^verbatim>\<open>bestArray\<close> and \<^verbatim>\<open>maxLocationCount\<close>
  passed along as a pair.
\<close>

function search :: "jsval \<Rightarrow> nat \<Rightarrow> jsval list option \<times> nat \<Rightarrow> jsval list option \<times> nat" where
  "search node depth best =
     (if 5 < depth then best
      else case node of
             JArr xs \<Rightarrow>
               (let locationCount = length (filter isLocationLike xs)
                in if snd best < locationCount then (Some xs, locationCount) else best)
           | JObj kvs \<Rightarrow> foldl (\<lambda>b kv. search (snd kv) (depth + 1) b) best kvs
           | _ \<Rightarrow> best)"
  by pat_completeness auto
termination
  by (relation "measure (\<lambda>(node, depth, best). 6 - depth)") auto

declare search.simps [simp del]

definition findDataArray :: "jsval \<Rightarrow> jsval list option" where
  "findDataArray data =
     (if \<not> truthy data then None
      else case data of
             JArr xs \<Rightarrow> Some xs
           | _ \<Rightarrow> (case first_priority data priorityKeys of
                     Some xs \<Rightarrow> Some xs
                   | None \<Rightarrow> fst (search data 0 (None, 0))))"

subsection \<open>City of an address\<close>

fun split_comma :: "string \<Rightarrow> string list" where
  "split_comma [] = [[]]"
| "split_comma (c # cs) =
     (if c = CHR '','' then [] # split_comma cs
      else case split_comma cs of
             p # ps \<Rightarrow> (c # p) # ps
           | [] \<Rightarrow> [[c]])"

text \<open>
  \<^verbatim>\<open>extractCity\<close>. The argument is whatever the record holds: \<^verbatim>\<open>address.split\<close> throws
  when a truthy address is not a string.
\<close>

definition city_of_parts :: "string list \<Rightarrow> string option" where
  "city_of_parts parts =
     (if 3 \<le> length parts
      then let regionPart = parts ! (length parts - 2)
           in if list_ex is_digit regionPart then Some (parts ! (length parts - 3))
              else Some regionPart
      else if length parts = 2 then Some (parts ! 0)
      else if 0 < length parts then Some (parts ! 0) else None)"

fun extractCity :: "jsval \<Rightarrow> exn + string option" where
  "extractCity (JStr address) =
     (if address = [] then Inr None
      else Inr (city_of_parts (map trim (split_comma address))))"
| "extractCity address = (if truthy address then Inl TypeError else Inr None)"

subsection \<open>Events as the normalizer pushes them\<close>

text \<open>
  The object literals that \<^verbatim>\<open>parseTimelineData\<close> pushes. TypeScript's types are erased at
  run time, so a field holds what the record held: a title or an activity type that is
  not a string, a latitude that is not a number. A property the literal does not set is
  \<open>JUndefined\<close> (\<open>None\<close> for the city). The subtitle is kept as its template and the
  values the template is filled with; rendering numbers and local times as text is not
  modelled.
\<close>

datatype Subtitle =
    VisitDuration jsdate jsdate
  | KmJourney jsval
  | LocaleTime jsdate
  | LegacyVisit

record EmittedEvent =
  ev_id :: string
  ev_type :: EventType
  ev_title :: jsval
  ev_subtitle :: Subtitle
  ev_startTime :: jsdate
  ev_endTime :: jsdate
  ev_lat :: jsval
  ev_lng :: jsval
  ev_city :: "string option"
  ev_placeId :: jsval
  ev_distanceMeters :: jsval
  ev_activityType :: jsval
  ev_raw :: jsval

text \<open>\<^verbatim>\<open>type.replace(/_/g, ' ')\<close>\<close>

definition replace_underscores :: "string \<Rightarrow> string" where
  "replace_underscores s = map (\<lambda>c. if c = CHR ''_'' then CHR '' '' else c) s"

text \<open>
  \<^verbatim>\<open>new Date(v)\<close>. How a string is read as a date is left to the engine, so the
  constructor on printable values is the parameter \<open>D\<close> of the normalizer.
\<close>

definition new_Date :: "(jsval \<Rightarrow> jsdate) \<Rightarrow> jsval \<Rightarrow> exn + jsdate" where
  "new_Date D v = (if unprintable v then Inl TypeError else Inr (D v))"

subsection \<open>One record\<close>

text \<open>
  The body of \<^verbatim>\<open>rawItems.forEach\<close>, branch by branch. Each function returns the events the
  record pushes, or the exception that leaves the loop. A variable of the source whose
  name is a field of \<open>ProcessedEvent\<close> carries a prime here (\<open>city'\<close>, \<open>type'\<close>, \<open>lat'\<close>,
  \<open>lng'\<close>, \<open>startTime'\<close>, \<open>endTime'\<close>).
\<close>

text \<open>A visit inside a semantic segment.\<close>

definition semantic_visit :: "nat \<Rightarrow> jsval \<Rightarrow> jsdate \<Rightarrow> jsdate \<Rightarrow> exn + EmittedEvent list" where
  "semantic_visit index obj start end =
     (let topCandidate = js_get (js_get obj ''visit'') ''topCandidate'';
          latLngStr = js_get_opt (js_get_opt topCandidate ''placeLocation'') ''latLng''
      in case parseLatLngString latLngStr of
           None \<Rightarrow> Inr []
         | Some coords \<Rightarrow>
             if isNaN_getTime start then Inr []
             else let name = js_or (js_get_opt topCandidate ''name'') (JStr ''Visited Place'')
                  in case extractCity (js_get_opt (js_get_opt topCandidate ''placeLocation'') ''address'') of
                       Inl x \<Rightarrow> Inl x
                     | Inr city' \<Rightarrow>
                         Inr [\<lparr>ev_id = ''v-'' @ show_nat index,
                               ev_type = VISIT,
                               ev_title = name,
                               ev_subtitle = VisitDuration start end,
                               ev_startTime = start,
                               ev_endTime = end,
                               ev_lat = JNum (fst coords),
                               ev_lng = JNum (snd coords),
                               ev_city = city',
                               ev_placeId = js_get_opt topCandidate ''placeId'',
                               ev_distanceMeters = JUndefined,
                               ev_activityType = JUndefined,
                               ev_raw = obj\<rparr>])"

text \<open>
  An activity inside a semantic segment. \<^verbatim>\<open>type.replace\<close> throws when the type is not a
  string, and the division in the subtitle when the distance is an object that has no
  primitive value.
\<close>

definition semantic_activity :: "nat \<Rightarrow> jsval \<Rightarrow> jsdate \<Rightarrow> jsdate \<Rightarrow> exn + EmittedEvent list" where
  "semantic_activity index obj start end =
     (let activity = js_get obj ''activity'';
          startCoords = parseLatLngString (js_get_opt (js_get activity ''start'') ''latLng'');
          endCoords = parseLatLngString (js_get_opt (js_get activity ''end'') ''latLng'');
          type' = js_or (js_get_opt (js_get activity ''topCandidate'') ''type'') (JStr ''MOVE'')
      in case endCoords of
           None \<Rightarrow> Inr []
         | Some coords \<Rightarrow>
             if isNaN_getTime start then Inr []
             else case type' of
                    JStr label \<Rightarrow>
                      if unprintable (js_get activity ''distanceMeters'') then Inl TypeError
                      else Inr [\<lparr>ev_id = ''a-'' @ show_nat index,
                                 ev_type = MOVE,
                                 ev_title = JStr (replace_underscores label),
                                 ev_subtitle =
                                   KmJourney (js_or (js_get activity ''distanceMeters'') (JNum (Fin 0))),
                                 ev_startTime = start,
                                 ev_endTime = end,
                                 ev_lat = JNum (fst coords),
                                 ev_lng = JNum (snd coords),
                                 ev_city = None,
                                 ev_placeId = JUndefined,
                                 ev_distanceMeters = js_get activity ''distanceMeters'',
                                 ev_activityType = JStr (replace_underscores label),
                                 ev_raw = obj\<rparr>]
                  | _ \<Rightarrow> Inl TypeError)"

text \<open>The points of a \<^verbatim>\<open>timelinePath\<close>: every fifth one is kept.\<close>

fun path_points ::
  "(jsval \<Rightarrow> jsdate) \<Rightarrow> nat \<Rightarrow> jsval \<Rightarrow> nat \<Rightarrow> jsval list \<Rightarrow> exn + EmittedEvent list" where
  "path_points D index startTime' pIdx [] = Inr []"
| "path_points D index startTime' pIdx (pathPt # rest) =
     (if nullish pathPt then Inl TypeError
      else case new_Date D (js_or (js_get pathPt ''time'') startTime') of
             Inl x \<Rightarrow> Inl x
           | Inr ptTime \<Rightarrow>
               (let pushed =
                      (case parseLatLngString (js_get pathPt ''point'') of
                         None \<Rightarrow> []
                       | Some coords \<Rightarrow>
                           if \<not> isNaN_getTime ptTime \<and> pIdx mod 5 = 0
                           then [\<lparr>ev_id = ''tp-'' @ show_nat index @ ''-'' @ show_nat pIdx,
                                  ev_type = POINT,
                                  ev_title = JStr ''Path Point'',
                                  ev_subtitle = LocaleTime ptTime,
                                  ev_startTime = ptTime,
                                  ev_endTime = ptTime,
                                  ev_lat = JNum (fst coords),
                                  ev_lng = JNum (snd coords),
                                  ev_city = None,
                                  ev_placeId = JUndefined,
                                  ev_distanceMeters = JUndefined,
                                  ev_activityType = JUndefined,
                                  ev_raw = pathPt\<rparr>]
                           else [])
                in case path_points D index startTime' (Suc pIdx) rest of
                     Inl x \<Rightarrow> Inl x
                   | Inr others \<Rightarrow> Inr (pushed @ others)))"

fun timeline_path :: "(jsval \<Rightarrow> jsdate) \<Rightarrow> nat \<Rightarrow> jsval \<Rightarrow> jsval \<Rightarrow> exn + EmittedEvent list" where
  "timeline_path D index startTime' (JArr pts) = path_points D index startTime' 0 pts"
| "timeline_path D index startTime' _ = Inr []"

text \<open>A raw signal: every fiftieth record is kept.\<close>

definition raw_signal :: "(jsval \<Rightarrow> jsdate) \<Rightarrow> nat \<Rightarrow> jsval \<Rightarrow> exn + EmittedEvent list" where
  "raw_signal D index obj =
     (let latLngStr = js_get (js_get obj ''position'') ''LatLng'';
          ts = js_get (js_get obj ''position'') ''timestamp''
      in case parseLatLngString latLngStr of
           None \<Rightarrow> Inr []
         | Some coords \<Rightarrow>
             if \<not> truthy ts then Inr []
             else case new_Date D ts of
                    Inl x \<Rightarrow> Inl x
                  | Inr date \<Rightarrow>
                      if \<not> isNaN_getTime date \<and> index mod 50 = 0
                      then Inr [\<lparr>ev_id = ''rs-'' @ show_nat index,
                                 ev_type = POINT,
                                 ev_title = JStr ''Raw Signal'',
                                 ev_subtitle = LocaleTime date,
                                 ev_startTime = date,
                                 ev_endTime = date,
                                 ev_lat = JNum (fst coords),
                                 ev_lng = JNum (snd coords),
                                 ev_city = None,
                                 ev_placeId = JUndefined,
                                 ev_distanceMeters = JUndefined,
                                 ev_activityType = JUndefined,
                                 ev_raw = obj\<rparr>]
                      else Inr [])"

text \<open>
  The legacy format. \<open>legacy_visit_lat\<close> and the three functions after it are the
  coordinates as the two legacy branches resolve them.
\<close>

definition legacy_visit_lat :: "jsval \<Rightarrow> jsval" where
  "legacy_visit_lat loc =
     (if truthy (js_get loc ''latitudeE7'') then JNum (e7ToFloat (js_get loc ''latitudeE7''))
      else js_or (js_or (js_get loc ''latitude'') (js_get loc ''lat'')) (JNum (Fin 0)))"

definition legacy_visit_lng :: "jsval \<Rightarrow> jsval" where
  "legacy_visit_lng loc =
     (if truthy (js_get loc ''longitudeE7'') then JNum (e7ToFloat (js_get loc ''longitudeE7''))
      else js_or (js_or (js_get loc ''longitude'') (js_get loc ''lng'')) (JNum (Fin 0)))"

definition legacy_activity_lat :: "jsval \<Rightarrow> jsval" where
  "legacy_activity_lat loc =
     (if truthy (js_get_opt loc ''latitudeE7'') then JNum (e7ToFloat (js_get loc ''latitudeE7''))
      else js_or (js_get_opt loc ''latitude'') (JNum (Fin 0)))"

definition legacy_activity_lng :: "jsval \<Rightarrow> jsval" where
  "legacy_activity_lng loc =
     (if truthy (js_get_opt loc ''longitudeE7'') then JNum (e7ToFloat (js_get loc ''longitudeE7''))
      else js_or (js_get_opt loc ''longitude'') (JNum (Fin 0)))"

definition legacy_visit ::
  "(jsval \<Rightarrow> jsdate) \<Rightarrow> nat \<Rightarrow> jsval \<Rightarrow> jsval \<Rightarrow> exn + EmittedEvent list" where
  "legacy_visit D index obj placeVisit =
     (let loc = js_or (js_get placeVisit ''location'') (JObj []);
          lat' = legacy_visit_lat loc;
          lng' = legacy_visit_lng loc;
          duration = js_get placeVisit ''duration'';
          startStr = js_or (js_get_opt duration ''startTimestamp'') (js_get_opt duration ''startTime'')
      in if truthy lat' \<and> truthy lng' \<and> truthy startStr
         then case new_Date D startStr of
                Inl x \<Rightarrow> Inl x
              | Inr start \<Rightarrow>
                  (case new_Date D (js_or (js_get_opt duration ''endTimestamp'') startStr) of
                     Inl x \<Rightarrow> Inl x
                   | Inr end \<Rightarrow>
                       (case extractCity (js_get loc ''address'') of
                          Inl x \<Rightarrow> Inl x
                        | Inr city' \<Rightarrow>
                            Inr [\<lparr>ev_id = ''legacy-v-'' @ show_nat index,
                                  ev_type = VISIT,
                                  ev_title = js_or (js_get loc ''name'') (JStr ''Visited Place''),
                                  ev_subtitle = LegacyVisit,
                                  ev_startTime = start,
                                  ev_endTime = end,
                                  ev_lat = lat',
                                  ev_lng = lng',
                                  ev_city = city',
                                  ev_placeId = js_get loc ''placeId'',
                                  ev_distanceMeters = JUndefined,
                                  ev_activityType = JUndefined,
                                  ev_raw = obj\<rparr>]))
         else Inr [])"

definition legacy_activity ::
  "(jsval \<Rightarrow> jsdate) \<Rightarrow> nat \<Rightarrow> jsval \<Rightarrow> jsval \<Rightarrow> exn + EmittedEvent list" where
  "legacy_activity D index obj activitySegment =
     (let duration = js_get activitySegment ''duration'';
          startStr = js_or (js_get_opt duration ''startTimestamp'') (js_get_opt duration ''startTime'');
          endStr = js_or (js_get_opt duration ''endTimestamp'') (js_get_opt duration ''endTime'');
          type' = js_or (js_get activitySegment ''activityType'') (JStr ''TRAVEL'')
      in if truthy startStr
         then case new_Date D startStr of
                Inl x \<Rightarrow> Inl x
              | Inr start \<Rightarrow>
                  (case new_Date D (js_or endStr startStr) of
                     Inl x \<Rightarrow> Inl x
                   | Inr end \<Rightarrow>
                       (let loc = js_or (js_get activitySegment ''endLocation'')
                                    (js_get activitySegment ''startLocation'');
                            lat' = legacy_activity_lat loc;
                            lng' = legacy_activity_lng loc
                        in if truthy lat' \<and> truthy lng'
                           then if unprintable (js_get activitySegment ''distance'') then Inl TypeError
                                else Inr [\<lparr>ev_id = ''legacy-a-'' @ show_nat index,
                                           ev_type = MOVE,
                                           ev_title = type',
                                           ev_subtitle =
                                             KmJourney (js_or (js_get activitySegment ''distance'')
                                                          (JNum (Fin 0))),
                                           ev_startTime = start,
                                           ev_endTime = end,
                                           ev_lat = lat',
                                           ev_lng = lng',
                                           ev_city = None,
                                           ev_placeId = JUndefined,
                                           ev_distanceMeters = js_get activitySegment ''distance'',
                                           ev_activityType = type',
                                           ev_raw = obj\<rparr>]
                           else Inr []))
         else Inr [])"

definition legacy :: "(jsval \<Rightarrow> jsdate) \<Rightarrow> nat \<Rightarrow> jsval \<Rightarrow> exn + EmittedEvent list" where
  "legacy D index obj =
     (let placeVisit = js_or (js_get obj ''placeVisit'') (js_get obj ''visit'');
          activitySegment = js_or (js_get obj ''activitySegment'') (js_get obj ''activity'')
      in if truthy placeVisit then legacy_visit D index obj placeVisit
         else if truthy activitySegment then legacy_activity D index obj activitySegment
         else Inr [])"

text \<open>
  The start and end time fields of a record, and the whole body of the loop. Reading a
  property of a record that is \<^verbatim>\<open>null\<close> throws.
\<close>

definition record_startTime :: "jsval \<Rightarrow> jsval" where
  "record_startTime obj =
     js_or (js_get obj ''startTime'') (js_get_opt (js_get obj ''duration'') ''startTimestamp'')"

definition record_endTime :: "jsval \<Rightarrow> jsval" where
  "record_endTime obj =
     js_or (js_get obj ''endTime'') (js_get_opt (js_get obj ''duration'') ''endTimestamp'')"

definition processItem :: "(jsval \<Rightarrow> jsdate) \<Rightarrow> nat \<Rightarrow> jsval \<Rightarrow> exn + EmittedEvent list" where
  "processItem D index obj =
     (if nullish obj then Inl TypeError
      else let startTime' = record_startTime obj;
               endTime' = record_endTime obj
           in if truthy startTime'
              then case new_Date D startTime' of
                     Inl x \<Rightarrow> Inl x
                   | Inr start \<Rightarrow>
                       (case new_Date D (js_or endTime' startTime') of
                          Inl x \<Rightarrow> Inl x
                        | Inr end \<Rightarrow>
                            if truthy (js_get obj ''visit'') then semantic_visit index obj start end
                            else if truthy (js_get obj ''activity'')
                            then semantic_activity index obj start end
                            else timeline_path D index startTime' (js_get obj ''timelinePath''))
              else if truthy (js_get obj ''position'') then raw_signal D index obj
              else legacy D index obj)"

subsection \<open>The whole document\<close>

fun collect :: "(jsval \<Rightarrow> jsdate) \<Rightarrow> nat \<Rightarrow> jsval list \<Rightarrow> exn + EmittedEvent list" where
  "collect D index [] = Inr []"
| "collect D index (obj # rest) =
     (case processItem D index obj of
        Inl x \<Rightarrow> Inl x
      | Inr pushed \<Rightarrow>
          (case collect D (Suc index) rest of
             Inl x \<Rightarrow> Inl x
           | Inr others \<Rightarrow> Inr (pushed @ others)))"

text \<open>
  \<^verbatim>\<open>calculateStats(events)\<close> ends with \<^verbatim>\<open>Object.fromEntries(visitCountsByName)\<close>, which
  makes a property key of every visit's title: it throws when a title is an object that
  has no primitive value. Nothing else in \<^verbatim>\<open>calculateStats\<close> can throw on the events the
  loop pushes.
\<close>

definition stats_throw :: "EmittedEvent list \<Rightarrow> bool" where
  "stats_throw events = list_ex (\<lambda>e. ev_type e = VISIT \<and> unprintable (ev_title e)) events"

text \<open>
  \<^verbatim>\<open>parseTimelineData\<close>: \<open>None\<close> is \<^verbatim>\<open>null\<close>, and the \<^verbatim>\<open>catch\<close> turns every exception into
  it. The events are sorted by start time; the comparator's result is \<open>NaN\<close> when a date
  is invalid, which \<^verbatim>\<open>sort\<close> reads as 0 (the order is then the engine's choice, here
  that of the insertion sort). Of the result \<^verbatim>\<open>{ events, stats }\<close> the model keeps the
  events; \<^verbatim>\<open>stats\<close> is \<^verbatim>\<open>calculateStats(events)\<close>.
\<close>

definition parseTimelineData :: "(jsval \<Rightarrow> jsdate) \<Rightarrow> jsval \<Rightarrow> EmittedEvent list option" where
  "parseTimelineData D jsonData =
     (case findDataArray jsonData of
        None \<Rightarrow> None
      | Some rawItems \<Rightarrow>
          if rawItems = [] then None
          else case collect D 0 rawItems of
                 Inl x \<Rightarrow> None
               | Inr events \<Rightarrow>
                   if events = [] then None
                   else let sorted =
                              array_sort (\<lambda>a b. date_lt (ev_startTime b) (ev_startTime a)) events
                        in if stats_throw sorted then None else Some sorted)"

subsection \<open>A Date constructor for the examples\<close>

text \<open>
  \<open>iso_Date\<close> reads a number as a time value and a string of the form
  \<^verbatim>\<open>YYYY-MM-DDTHH:MM:SSZ\<close> (days 1 to 28) as that instant; every other value it takes for an Invalid
  Date. It stands for the engine's constructor in the concrete examples only.
\<close>

definition days_from_civil :: "int \<Rightarrow> int \<Rightarrow> int \<Rightarrow> int" where
  "days_from_civil y m d =
     (let y' = (if m \<le> 2 then y - 1 else y);
          era = y' div 400;
          yoe = y' - era * 400;
          doy = (153 * (if 2 < m then m - 3 else m + 9) + 2) div 5 + d - 1;
          doe = yoe * 365 + yoe div 4 - yoe div 100 + doy
      in era * 146097 + doe - 719468)"

definition iso_shape :: "string \<Rightarrow> bool" where
  "iso_shape s =
     (length s = 20
      \<and> list_all is_digit (take 4 s) \<and> s ! 4 = CHR ''-''
      \<and> list_all is_digit (take 2 (drop 5 s)) \<and> s ! 7 = CHR ''-''
      \<and> list_all is_digit (take 2 (drop 8 s)) \<and> s ! 10 = CHR ''T''
      \<and> list_all is_digit (take 2 (drop 11 s)) \<and> s ! 13 = CHR '':''
      \<and> list_all is_digit (take 2 (drop 14 s)) \<and> s ! 16 = CHR '':''
      \<and> list_all is_digit (take 2 (drop 17 s)) \<and> s ! 19 = CHR ''Z'')"

definition iso_time :: "string \<Rightarrow> jsdate" where
  "iso_time s =
     (let y = int (digits_val (take 4 s));
          m = int (digits_val (take 2 (drop 5 s)));
          d = int (digits_val (take 2 (drop 8 s)));
          hh = int (digits_val (take 2 (drop 11 s)));
          mm = int (digits_val (take 2 (drop 14 s)));
          ss = int (digits_val (take 2 (drop 17 s)))
      in if 1 \<le> m \<and> m \<le> 12 \<and> 1 \<le> d \<and> d \<le> 28 \<and> hh \<le> 23 \<and> mm \<le> 59 \<and> ss \<le> 59
         then Time ((((days_from_civil y m d * 24 + hh) * 60 + mm) * 60 + ss) * 1000)
         else InvalidDate)"

fun iso_Date :: "jsval \<Rightarrow> jsdate" where
  "iso_Date (JStr s) = (if iso_shape s then iso_time s else InvalidDate)"
| "iso_Date (JNum (Fin q)) =
     (if \<bar>q\<bar> \<le> of_int max_time then Time (if 0 \<le> q then \<lfloor>q\<rfloor> else \<lceil>q\<rceil>) else InvalidDate)"
| "iso_Date _ = InvalidDate"

section \<open>Notions used in the statements\<close>

text \<open>
  The time value of a valid date, and validity: a \<^verbatim>\<open>Date\<close> holds a time value within
  \<open>max_time\<close> of the epoch. \<open>times\<close> keeps the time values of the valid dates of a list.
  \<open>sample_event\<close> builds the events of the concrete examples.
\<close>

fun time_of :: "jsdate \<Rightarrow> int" where
  "time_of (Time t) = t"
| "time_of InvalidDate = 0"

fun valid_date :: "jsdate \<Rightarrow> bool" where
  "valid_date (Time t) = (- max_time \<le> t \<and> t \<le> max_time)"
| "valid_date InvalidDate = False"

fun times :: "jsdate list \<Rightarrow> int list" where
  "times [] = []"
| "times (Time t # ds) = t # times ds"
| "times (InvalidDate # ds) = times ds"

definition sample_event ::
  "EventType \<Rightarrow> string \<Rightarrow> int \<Rightarrow> int \<Rightarrow> string option \<Rightarrow> string option \<Rightarrow> jsnum option
     \<Rightarrow> ProcessedEvent" where
  "sample_event ty ttl s e c act d =
     \<lparr>eid = [], type = ty, title = KStr ttl, subtitle = [], startTime = Time s, endTime = Time e,
      lat = JNum (Fin 1), lng = JNum (Fin 1),
      distanceMeters = (case d of None \<Rightarrow> JUndefined | Some meters \<Rightarrow> JNum meters), city = c,
      activityType = (case act of None \<Rightarrow> KUndefined | Some label \<Rightarrow> KStr label),
      placeId = JUndefined, placeTypes = None, semanticType = None\<rparr>"

text \<open>
  \<open>throws\<close> says that some distance the loop adds, or the title of some Visit event, has
  no primitive value: \<^verbatim>\<open>calculateStats\<close> then throws, and else it returns.
  \<open>titles_collide\<close> says that two different titles of Visit events are converted to one
  property name, as the number 1 and the string \<^verbatim>\<open>"1"\<close> are; titles that are all strings
  never do.
\<close>

definition distance_throws :: "ProcessedEvent list \<Rightarrow> bool" where
  "distance_throws events =
     list_ex (\<lambda>e. truthy (distanceMeters e) \<and> unprintable (distanceMeters e)) events"

definition title_throws :: "ProcessedEvent list \<Rightarrow> bool" where
  "title_throws events = list_ex (\<lambda>e. type e = VISIT \<and> unprintable (key_value (title e))) events"

definition throws :: "ProcessedEvent list \<Rightarrow> bool" where
  "throws events = (distance_throws events \<or> title_throws events)"

definition titles_collide :: "ProcessedEvent list \<Rightarrow> bool" where
  "titles_collide events =
     (\<not> distinct (map property_key (remdups (map title (filter (\<lambda>e. type e = VISIT) events)))))"

definition string_titles :: "ProcessedEvent list \<Rightarrow> bool" where
  "string_titles events = list_all (\<lambda>e. type e = VISIT \<longrightarrow> is_string (key_value (title e))) events"

text \<open>
  \<open>count_of\<close> reads a counter (0 when the key is absent). \<open>visit_titles\<close>,
  \<open>visit_cities\<close>, \<open>move_activities\<close> and \<open>distances\<close> list, in the order of the events,
  the keys the loop counts and the distances it adds. \<open>city_visits n\<close> is the number of
  Visit events that carry the city \<open>n\<close>, \<open>first_seen n\<close> the index of the first of them.
\<close>

definition count_of :: "('k \<times> nat) list \<Rightarrow> 'k \<Rightarrow> nat" where
  "count_of m k = (case map_get m k of None \<Rightarrow> 0 | Some c \<Rightarrow> c)"

definition visit_titles :: "ProcessedEvent list \<Rightarrow> jskey list" where
  "visit_titles es = map title (filter (\<lambda>e. type e = VISIT) es)"

definition visit_cities :: "ProcessedEvent list \<Rightarrow> string list" where
  "visit_cities es = map (\<lambda>e. the (city e)) (filter (\<lambda>e. type e = VISIT \<and> str_truthy (city e)) es)"

definition move_activities :: "ProcessedEvent list \<Rightarrow> jskey list" where
  "move_activities es =
     map activityType (filter (\<lambda>e. type e = MOVE \<and> truthy (key_value (activityType e))) es)"

definition city_visits :: "string \<Rightarrow> ProcessedEvent list \<Rightarrow> nat" where
  "city_visits n events = length (filter (\<lambda>e. type e = VISIT \<and> city e = Some n) events)"

definition first_seen :: "string \<Rightarrow> ProcessedEvent list \<Rightarrow> nat" where
  "first_seen n events = length (takeWhile (\<lambda>e. \<not> (type e = VISIT \<and> city e = Some n)) events)"

definition distances :: "ProcessedEvent list \<Rightarrow> jsval list" where
  "distances es = map distanceMeters (filter (\<lambda>e. truthy (distanceMeters e)) es)"

text \<open>
  The loop when no distance throws: \<open>add_distance\<close> is \<^verbatim>\<open>+=\<close> on primitive values, and
  \<open>pure_step\<close> the body with it.
\<close>

definition add_primitive :: "jsval \<Rightarrow> jsval \<Rightarrow> jsval" where
  "add_primitive meters d = plus_primitive (to_primitive meters) (to_primitive d)"

definition add_distance :: "ProcessedEvent \<Rightarrow> Acc \<Rightarrow> Acc" where
  "add_distance e a =
     (if truthy (distanceMeters e)
      then a\<lparr>totalDistanceMeters := add_primitive (totalDistanceMeters a) (distanceMeters e)\<rparr>
      else a)"

definition pure_step :: "Acc \<Rightarrow> ProcessedEvent \<Rightarrow> Acc" where
  "pure_step a e = step_activity e (step_visit e (add_distance e (step_dates e a)))"


text \<open>Events of the concrete examples.\<close>

definition sample_trip :: "ProcessedEvent list" where
  "sample_trip =
     [sample_event VISIT ''Cafe'' 10 20 (Some ''Paris'') None None,
      sample_event VISIT ''Forum'' 30 40 (Some ''Rome'') None None,
      sample_event MOVE ''WALKING'' 40 50 None (Some ''WALKING'') (Some (Fin 1200)),
      sample_event VISIT ''Louvre'' 50 60 (Some ''Paris'') None None,
      sample_event VISIT ''Opera'' 70 80 (Some ''Oslo'') None None]"



definition titled_visit :: "jskey \<Rightarrow> ProcessedEvent" where
  "titled_visit k = (sample_event VISIT [] 0 0 None None None)\<lparr>title := k\<rparr>"



text \<open>
  Notions for the normalizer. \<open>emitted\<close> is what a record leaves in the event list: nothing
  when it throws. A legacy record has no start time field and no \<^verbatim>\<open>position\<close>;
  \<open>legacy_placeVisit\<close>, \<open>legacy_activitySegment\<close> and \<open>segment_loc\<close> are the objects the
  legacy branch reads, and \<open>legacy_coords\<close> the latitude and longitude it resolves. A
  semantic activity record has a start time field, no \<^verbatim>\<open>visit\<close> and an \<^verbatim>\<open>activity\<close>;
  \<open>activity_end\<close> is its end coordinate string and \<open>activity_label\<close> its transport mode.
  \<open>activity_ok\<close> gathers what lets such a record through besides the coordinate: a start
  time that is a valid instant, a label that is a string, and no value whose conversion
  throws.
\<close>

fun emitted :: "exn + EmittedEvent list \<Rightarrow> EmittedEvent list" where
  "emitted (Inl x) = []"
| "emitted (Inr events) = events"

text \<open>
  The objects that the normalizer pushes are the objects that \<^verbatim>\<open>calculateStats\<close> is
  called with: \<open>reads e v\<close> says that the aggregator's event \<open>e\<close> has the fields of the
  pushed event \<open>v\<close> that \<^verbatim>\<open>calculateStats\<close> reads, its title and its activity type at
  any address.
\<close>

definition reads :: "ProcessedEvent \<Rightarrow> EmittedEvent \<Rightarrow> bool" where
  "reads e v =
     (type e = ev_type v \<and> key_value (title e) = ev_title v
      \<and> distanceMeters e = ev_distanceMeters v
      \<and> key_value (activityType e) = ev_activityType v \<and> city e = ev_city v
      \<and> startTime e = ev_startTime v \<and> endTime e = ev_endTime v)"

text \<open>
  Record \<open>k\<close> of the located array: whether processing it throws, and the events it
  pushes.
\<close>

definition record_throws :: "(jsval \<Rightarrow> jsdate) \<Rightarrow> jsval list \<Rightarrow> nat \<Rightarrow> bool" where
  "record_throws D rawItems k = isl (processItem D k (rawItems ! k))"

definition record_events :: "(jsval \<Rightarrow> jsdate) \<Rightarrow> jsval list \<Rightarrow> nat \<Rightarrow> EmittedEvent list" where
  "record_events D rawItems k = emitted (processItem D k (rawItems ! k))"

definition legacy_record :: "jsval \<Rightarrow> bool" where
  "legacy_record obj =
     (\<not> nullish obj \<and> \<not> truthy (record_startTime obj) \<and> \<not> truthy (js_get obj ''position''))"

definition legacy_placeVisit :: "jsval \<Rightarrow> jsval" where
  "legacy_placeVisit obj = js_or (js_get obj ''placeVisit'') (js_get obj ''visit'')"

definition legacy_activitySegment :: "jsval \<Rightarrow> jsval" where
  "legacy_activitySegment obj = js_or (js_get obj ''activitySegment'') (js_get obj ''activity'')"

definition segment_loc :: "jsval \<Rightarrow> jsval" where
  "segment_loc activitySegment =
     js_or (js_get activitySegment ''endLocation'') (js_get activitySegment ''startLocation'')"

definition legacy_coords :: "jsval \<Rightarrow> jsval \<times> jsval" where
  "legacy_coords obj =
     (if truthy (legacy_placeVisit obj)
      then let loc = js_or (js_get (legacy_placeVisit obj) ''location'') (JObj [])
           in (legacy_visit_lat loc, legacy_visit_lng loc)
      else let loc = segment_loc (legacy_activitySegment obj)
           in (legacy_activity_lat loc, legacy_activity_lng loc))"

definition legacy_activity_record :: "jsval \<Rightarrow> bool" where
  "legacy_activity_record obj =
     (legacy_record obj \<and> \<not> truthy (legacy_placeVisit obj) \<and> truthy (legacy_activitySegment obj))"

definition semantic_activity_record :: "jsval \<Rightarrow> bool" where
  "semantic_activity_record obj =
     (\<not> nullish obj \<and> truthy (record_startTime obj) \<and> \<not> truthy (js_get obj ''visit'')
      \<and> truthy (js_get obj ''activity''))"

definition activity_end :: "jsval \<Rightarrow> jsval" where
  "activity_end obj = js_get_opt (js_get (js_get obj ''activity'') ''end'') ''latLng''"

definition activity_label :: "jsval \<Rightarrow> jsval" where
  "activity_label obj =
     js_or (js_get_opt (js_get (js_get obj ''activity'') ''topCandidate'') ''type'') (JStr ''MOVE'')"

definition activity_ok :: "(jsval \<Rightarrow> jsdate) \<Rightarrow> jsval \<Rightarrow> bool" where
  "activity_ok D obj =
     (\<not> unprintable (record_startTime obj)
      \<and> \<not> unprintable (js_or (record_endTime obj) (record_startTime obj))
      \<and> \<not> isNaN_getTime (D (record_startTime obj))
      \<and> is_string (activity_label obj)
      \<and> \<not> unprintable (js_get (js_get obj ''activity'') ''distanceMeters''))"

text \<open>
  Documents and records of the concrete examples. \<open>deg_pair a b\<close> is the coordinate
  string \<^verbatim>\<open>"a\<degree>, b\<degree>"\<close>.
\<close>

definition deg_pair :: "string \<Rightarrow> string \<Rightarrow> jsval" where
  "deg_pair a b = JStr (a @ [degree] @ '', '' @ b @ [degree])"

definition legacy_visit_doc :: "jsval \<Rightarrow> jsval" where
  "legacy_visit_doc ts =
     JObj [(''timelineObjects'', JArr [JObj [(''placeVisit'',
        JObj [(''location'', JObj [(''latitudeE7'', JNum (Fin 123456789)),
                                  (''longitudeE7'', JNum (Fin 987654321)),
                                  (''name'', JStr ''Home'')]),
              (''duration'', JObj [(''startTimestamp'', ts)])])]])]"

definition legacy_activity_doc :: "jsval \<Rightarrow> jsval" where
  "legacy_activity_doc label =
     JObj [(''timelineObjects'', JArr [JObj [(''activitySegment'',
        JObj [(''startLocation'', JObj [(''latitudeE7'', JNum (Fin 10000000)),
                                       (''longitudeE7'', JNum (Fin 20000000))]),
              (''endLocation'', JObj [(''latitudeE7'', JNum (Fin 30000000)),
                                     (''longitudeE7'', JNum (Fin 40000000))]),
              (''duration'', JObj [(''startTimestamp'', JStr ''2024-01-01T10:00:00Z''),
                                  (''endTimestamp'', JStr ''2024-01-01T11:00:00Z'')]),
              (''activityType'', label),
              (''distance'', JNum (Fin 1200))])]])]"

text \<open>
  A legacy visit named \<open>name\<close>, alone in its document and followed by a record that is
  \<^verbatim>\<open>null\<close>.
\<close>

definition named_visit :: "jsval \<Rightarrow> jsval" where
  "named_visit name =
     JObj [(''placeVisit'',
        JObj [(''location'', JObj [(''latitudeE7'', JNum (Fin 123456789)),
                                  (''longitudeE7'', JNum (Fin 987654321)),
                                  (''name'', name)]),
              (''duration'', JObj [(''startTimestamp'', JStr ''2024-01-01T10:00:00Z'')])])]"

definition zero_visit_record :: jsval where
  "zero_visit_record =
     JObj [(''placeVisit'',
        JObj [(''location'', JObj [(''latitude'', JNum (Fin 0)), (''longitude'', JNum (Fin 0))]),
              (''duration'', JObj [(''startTimestamp'', JStr ''2024-01-01T10:00:00Z'')])])]"

definition activity_record :: "jsval \<Rightarrow> jsval" where
  "activity_record ts =
     JObj [(''startTime'', ts),
           (''activity'', JObj [(''end'', JObj [(''latLng'', deg_pair ''1'' ''2'')]),
                               (''topCandidate'', JObj [(''type'', JStr ''IN_PASSENGER_VEHICLE'')])])]"

definition visit_and_activity_record :: jsval where
  "visit_and_activity_record =
     JObj [(''startTime'', JStr ''2024-01-01T10:00:00Z''),
           (''visit'', JObj [(''topCandidate'', JObj [(''name'', JStr ''Cafe X''),
              (''placeLocation'', JObj [(''latLng'', deg_pair ''34.5'' ''-118.25'')])])]),
           (''activity'', JObj [(''end'', JObj [(''latLng'', deg_pair ''1'' ''2'')])])]"

definition visit_activity_position_record :: jsval where
  "visit_activity_position_record =
     JObj [(''visit'', JObj []), (''activity'', JObj []),
           (''position'', JObj [(''LatLng'', deg_pair ''1'' ''2''),
                               (''timestamp'', JStr ''2024-01-01T10:00:00Z'')])]"

section \<open>Properties of the rounding\<close>

text \<open>
  \<open>ilog2\<close> is the binary exponent, and \<open>fl\<close> moves a value by at most half a unit in the
  last place.
\<close>

lemma pow2_pos: "0 < pow2 k"
  by (simp add: pow2_def)

lemma pow2_step: "pow2 (k + 1) = 2 * pow2 k"
proof (cases "0 \<le> k")
  case True
  then have "nat (k + 1) = Suc (nat k)" by simp
  then show ?thesis using True by (simp add: pow2_def)
next
  case False
  then have "nat (- k) = Suc (nat (- (k + 1)))" by simp
  then show ?thesis using False by (simp add: pow2_def)
qed

lemma log2_big_bounds:
  "1 \<le> q \<Longrightarrow> pow2 (log2_big q) \<le> q \<and> q < pow2 (log2_big q + 1)"
proof (induction q rule: log2_big.induct)
  case (1 q)
  show ?case
  proof (cases "q < 2")
    case True
    then show ?thesis using "1.prems" by (simp add: log2_big.simps pow2_def)
  next
    case False
    then have "pow2 (log2_big (q / 2)) \<le> q / 2 \<and> q / 2 < pow2 (log2_big (q / 2) + 1)"
      using "1.IH" by simp
    then show ?thesis
      using False pow2_step [of "log2_big (q / 2)"] pow2_step [of "log2_big (q / 2) + 1"]
      by (simp add: log2_big.simps [of q] add.commute)
  qed
qed

lemma log2_small_bounds:
  "0 < q \<Longrightarrow> q < 1 \<Longrightarrow> pow2 (log2_small q) \<le> q \<and> q < pow2 (log2_small q + 1)"
proof (induction q rule: log2_small.induct)
  case (1 q)
  show ?case
  proof (cases "1 \<le> 2 * q")
    case True
    then have "log2_small (2 * q) = 0" by (simp add: log2_small.simps [of "2 * q"])
    then have "log2_small q = - 1" using "1.prems" by (simp add: log2_small.simps [of q])
    then show ?thesis using True "1.prems" by (simp add: pow2_def)
  next
    case False
    then have ih: "pow2 (log2_small (2 * q)) \<le> 2 * q \<and> 2 * q < pow2 (log2_small (2 * q) + 1)"
      using "1.IH" "1.prems" by simp
    have eq: "log2_small q = log2_small (2 * q) - 1"
      using "1.prems" by (simp add: log2_small.simps [of q])
    show ?thesis
      using ih pow2_step [of "log2_small (2 * q) - 1"] pow2_step [of "log2_small (2 * q)"]
      by (simp add: eq)
  qed
qed

lemma ilog2_bounds:
  "0 < q \<Longrightarrow> pow2 (ilog2 q) \<le> q \<and> q < pow2 (ilog2 q + 1)"
  using log2_big_bounds [of q] log2_small_bounds [of q]
  by (cases "1 \<le> q") (simp_all add: ilog2_def)

lemma round_even_nearest: "\<bar>of_int (round_even x) - x\<bar> \<le> 1 / 2"
proof -
  define f where "f = \<lfloor>x\<rfloor>"
  define d where "d = x - of_int f"
  have d: "0 \<le> d" "d < 1" unfolding d_def f_def by linarith+
  have r: "round_even x = (if d < 1 / 2 then f else if 1 / 2 < d then f + 1
                           else if even f then f else f + 1)"
    by (simp add: round_even_def Let_def f_def d_def)
  show ?thesis
  proof (cases "d < 1 / 2")
    case True
    then have "of_int (round_even x) - x = - d" by (simp add: r d_def)
    then show ?thesis using d True by simp
  next
    case False
    then have "(round_even x = f \<and> d = 1 / 2) \<or> round_even x = f + 1"
      by (auto simp: r)
    then have "of_int (round_even x) - x = - d \<and> d = 1 / 2
             \<or> of_int (round_even x) - x = 1 - d"
      by (auto simp: d_def)
    then show ?thesis using d False by auto
  qed
qed

lemma fl_nearest:
  assumes "fl q = Fin v"
  shows "\<bar>v - q\<bar> \<le> pow2 (max (ilog2 \<bar>q\<bar>) (- 1022) - 52) / 2"
proof (cases "q = 0")
  case True
  then show ?thesis using assms pow2_pos [of "max (ilog2 \<bar>q\<bar>) (- 1022) - 52"]
    by (simp add: fl_def)
next
  case False
  define u where "u = pow2 (max (ilog2 \<bar>q\<bar>) (- 1022) - 52)"
  define a :: rat where "a = of_int (round_even (q / u))"
  have u: "0 < u" by (simp add: u_def pow2_pos)
  have v: "v = a * u"
    using assms False by (simp add: fl_def Let_def u_def a_def split: if_splits)
  have "\<bar>a - q / u\<bar> \<le> 1 / 2" unfolding a_def by (rule round_even_nearest)
  then have "\<bar>a - q / u\<bar> * u \<le> 1 / 2 * u"
    using u by (simp only: mult_le_cancel_right_pos)
  moreover have "\<bar>a - q / u\<bar> * u = \<bar>(a - q / u) * u\<bar>"
    using u by (simp add: abs_mult)
  moreover have "(a - q / u) * u = v - q"
    using u by (simp add: v left_diff_distrib)
  ultimately show ?thesis by (simp add: u_def)
qed

text \<open>Evaluating \<open>fl\<close> on numerals.\<close>

lemma floor_rat_numeral:
  "\<lfloor>(numeral a :: rat) / numeral b\<rfloor> = numeral a div numeral b"
  using floor_divide_of_int_eq [of "numeral a" "numeral b", where ?'a = rat] by simp

lemmas float_eval = fl_def ilog2_def log2_big.simps log2_small.simps pow2_def round_even_def
  Let_def floor_rat_numeral

text \<open>Printing a number: the number 1.\<close>

lemma find_first: "P 1 \<Longrightarrow> List.find P [1..<17] = Some 1"
  by (simp add: upt_conv_Cons)

lemma fl_one: "fl 1 = Fin 1"
  by (simp add: float_eval)

lemma number_to_string_1: "number_to_string (Fin 1) = ''1''"
proof -
  have c: "decimal_candidates 1 (Suc 0) = ((1, Suc 0), (1, 2))"
    by (simp add: decimal_candidates_def ilog10_def log10_big.simps pow10_def)
  have r: "round_trips 1 (Suc 0) (1, Suc 0)"
    by (simp add: round_trips_def decimal_value_def pow10_def fl_one)
  have "List.find (\<lambda>k. round_trips 1 k (fst (decimal_candidates 1 k))
                          \<or> round_trips 1 k (snd (decimal_candidates 1 k))) [1..<17] = Some 1"
    by (intro find_first) (simp add: c r)
  then have "shortest_decimal 1 = (1, nearest_decimal 1 1)"
    by (simp only: shortest_decimal_def option.case)
  moreover have "nearest_decimal 1 (Suc 0) = (1, Suc 0)"
    using r by (simp add: nearest_decimal_def c decimal_value_def pow10_def Let_def)
  ultimately have "shortest_decimal 1 = (1, 1, 1)" by simp
  then show ?thesis by (simp add: positive_to_string_def show_nat.simps)
qed

section \<open>Properties of the aggregator\<close>

subsection \<open>Insertion-ordered maps and sets\<close>

lemma keys_map_set:
  "map fst (map_set m k v) = set_add (map fst m) k"
  by (induction m) (force simp: set_add_def)+

lemma keys_increment: "map fst (increment m k) = set_add (map fst m) k"
  by (simp add: increment_def keys_map_set)

lemma keys_foldl_increment:
  "map fst (foldl increment m ks) = foldl set_add (map fst m) ks"
  by (induction ks arbitrary: m) (simp_all add: keys_increment)

lemma sum_map_set:
  "sum_list (map snd (map_set m k v)) + count_of m k = sum_list (map snd m) + v"
  by (induction m) (auto simp: count_of_def)

lemma sum_increment: "sum_list (map snd (increment m k)) = sum_list (map snd m) + 1"
  using sum_map_set [of m k "count_of m k + 1"]
  by (simp add: increment_def count_of_def)

lemma sum_foldl_increment:
  "sum_list (map snd (foldl increment m ks)) = sum_list (map snd m) + length ks"
  by (induction ks arbitrary: m) (simp_all add: sum_increment)

lemma set_set_add: "set (set_add s k) = insert k (set s)"
  by (auto simp: set_add_def)

lemma distinct_set_add: "distinct s \<Longrightarrow> distinct (set_add s k)"
  by (simp add: set_add_def)

lemma set_foldl_set_add: "set (foldl set_add s ks) = set s \<union> set ks"
  by (induction ks arbitrary: s) (auto simp: set_set_add)

lemma distinct_foldl_set_add: "distinct s \<Longrightarrow> distinct (foldl set_add s ks)"
  by (induction ks arbitrary: s) (simp_all add: distinct_set_add)

lemma map_get_map_set:
  "map_get (map_set m k v) k' = (if k' = k then Some v else map_get m k')"
  by (induction m) auto

lemma map_get_increment:
  "map_get (increment m k) k' = (if k' = k then Some (count_of m k + 1) else map_get m k')"
  by (simp add: increment_def map_get_map_set count_of_def)

lemma map_get_foldl_increment:
  "map_get (foldl increment m ks) k =
     (if k \<in> set ks then Some (count_of m k + count_list ks k) else map_get m k)"
proof (induction ks arbitrary: m)
  case Nil
  then show ?case by simp
next
  case (Cons a ks)
  show ?case
    by (simp add: Cons.IH map_get_increment count_of_def)
qed

lemma map_get_Some_iff:
  "distinct (map fst m) \<Longrightarrow> map_get m k = Some v \<longleftrightarrow> (k, v) \<in> set m"
  by (induction m) (force split: if_splits)+

lemma length_set_add_fold: "length (foldl set_add [] ks) = card (set ks)"
  using distinct_card [OF distinct_foldl_set_add [of "[]" ks]]
  by (simp add: set_foldl_set_add)

lemma tally_entry:
  assumes "(n, c) \<in> set (foldl increment [] ks)"
  shows "n \<in> set ks \<and> c = count_list ks n"
proof -
  have d: "distinct (map fst (foldl increment [] ks))"
    by (simp add: keys_foldl_increment distinct_foldl_set_add)
  have "map_get (foldl increment [] ks) n = Some c"
    using assms by (simp add: map_get_Some_iff [OF d])
  then show ?thesis
    by (auto simp: map_get_foldl_increment count_of_def split: if_splits)
qed





lemma tally_keys: "set (map fst (foldl increment [] ks)) = set ks"
  by (simp only: keys_foldl_increment set_foldl_set_add) simp

lemma tally_empty: "foldl increment [] ks = [] \<longleftrightarrow> ks = []"
  using tally_keys [of ks] by (cases "foldl increment [] ks"; cases ks) auto

subsection \<open>Properties defined from entries\<close>

text \<open>
  \<^verbatim>\<open>Object.fromEntries\<close> throws exactly when a key has no primitive value. Otherwise it
  is a fold of \<open>map_set\<close> over the entries with their keys converted: the names it
  defines are those of the entries, and it keeps every entry when no two names are
  equal, fewer entries and a smaller sum of values when two are.
\<close>

lemma define_properties_throw:
  "list_ex (\<lambda>entry. unprintable (key_value (fst entry))) entries \<Longrightarrow>
   define_properties obj entries = Inl TypeError"
  by (induction entries arbitrary: obj) (auto simp: property_key_def)

lemma define_properties_return:
  "\<not> list_ex (\<lambda>entry. unprintable (key_value (fst entry))) entries \<Longrightarrow>
   define_properties obj entries =
     Inr (foldl (\<lambda>obj p. map_set obj (fst p) (snd p)) obj
            (map (\<lambda>entry. (to_string (key_value (fst entry)), snd entry)) entries))"
  by (induction entries arbitrary: obj) (auto simp: property_key_def)

lemma keys_foldl_put:
  "map fst (foldl (\<lambda>obj p. map_set obj (fst p) (snd p)) obj ps)
     = foldl set_add (map fst obj) (map fst ps)"
  by (induction ps arbitrary: obj) (simp_all add: keys_map_set)

lemma set_map_set: "set (map_set m k v) \<subseteq> insert (k, v) (set m)"
  by (induction m) (auto split: if_splits)

lemma set_foldl_put:
  "set (foldl (\<lambda>obj p. map_set obj (fst p) (snd p)) obj ps) \<subseteq> set obj \<union> set ps"
proof (induction ps arbitrary: obj)
  case Nil
  then show ?case by simp
next
  case (Cons p ps)
  show ?case using Cons [of "map_set obj (fst p) (snd p)"] set_map_set [of obj "fst p" "snd p"]
    by auto
qed


lemma count_of_positive:
  assumes "k \<in> set (map fst m)" and "\<forall>v\<in>set (map snd m). 0 < v"
  shows "0 < count_of m k"
  using assms by (induction m) (force simp: count_of_def)+

lemma count_of_absent: "k \<notin> set (map fst m) \<Longrightarrow> count_of m k = 0"
  by (induction m) (auto simp: count_of_def)

lemma sum_foldl_put:
  fixes ps :: "('k \<times> nat) list"
  assumes "\<forall>v\<in>set (map snd ps). 0 < v"
  shows "sum_list (map snd (foldl (\<lambda>obj p. map_set obj (fst p) (snd p)) [] ps))
           \<le> sum_list (map snd ps)
       \<and> (sum_list (map snd (foldl (\<lambda>obj p. map_set obj (fst p) (snd p)) [] ps))
            = sum_list (map snd ps) \<longleftrightarrow> distinct (map fst ps))"
  using assms
proof (induction ps rule: rev_induct)
  case Nil
  then show ?case by simp
next
  case (snoc p ps)
  let ?obj = "foldl (\<lambda>obj p. map_set obj (fst p) (snd p)) [] ps"
  have pos: "\<forall>v\<in>set (map snd ps). 0 < v" using snoc.prems by simp
  note IH = snoc.IH [OF pos]
  have keys: "set (map fst ?obj) = set (map fst ps)"
    by (simp only: keys_foldl_put set_foldl_set_add) simp
  have vals: "\<forall>v\<in>set (map snd ?obj). 0 < v"
    using set_foldl_put [of "[]" ps] pos by fastforce
  have eq: "sum_list (map snd (map_set ?obj (fst p) (snd p))) + count_of ?obj (fst p)
              = sum_list (map snd ?obj) + snd p"
    by (rule sum_map_set)
  show ?case
  proof (cases "fst p \<in> set (map fst ps)")
    case True
    then have "0 < count_of ?obj (fst p)" using keys vals by (intro count_of_positive) simp_all
    then show ?thesis using eq IH True by simp
  next
    case False
    then have "count_of ?obj (fst p) = 0" using keys by (intro count_of_absent) simp
    then show ?thesis using eq IH False by simp
  qed
qed

lemma length_foldl_put:
  "length (foldl (\<lambda>obj p. map_set obj (fst p) (snd p)) [] ps) \<le> length ps
   \<and> (length (foldl (\<lambda>obj p. map_set obj (fst p) (snd p)) [] ps) = length ps
        \<longleftrightarrow> distinct (map fst ps))"
proof -
  let ?obj = "foldl (\<lambda>obj p. map_set obj (fst p) (snd p)) [] ps"
  have "length ?obj = length (map fst ?obj)" by simp
  also have "\<dots> = card (set (map fst ps))"
    by (simp only: keys_foldl_put list.map length_set_add_fold)
  finally have len: "length ?obj = card (set (map fst ps))" .
  have "card (set (map fst ps)) \<le> length (map fst ps)" by (rule card_length)
  moreover have "card (set (map fst ps)) = length (map fst ps) \<longleftrightarrow> distinct (map fst ps)"
    using card_distinct distinct_card by blast
  ultimately show ?thesis using len by simp
qed

lemma mset_own_properties: "mset (own_properties obj) = mset obj"
  by (simp add: own_properties_def)

text \<open>Array indices come first: the entries \<^verbatim>\<open>b\<close>, \<^verbatim>\<open>1\<close>, \<^verbatim>\<open>0\<close> are enumerated as \<^verbatim>\<open>0\<close>, \<^verbatim>\<open>1\<close>, \<^verbatim>\<open>b\<close>.\<close>

lemma object_fromEntries_order:
  "object_fromEntries [(KStr ''b'', 1 :: nat), (KStr ''1'', 2), (KStr ''0'', 3)]
     = Inr [(''0'', 3), (''1'', 2), (''b'', 1)]"
  by (simp add: object_fromEntries_def property_key_def own_properties_def is_array_index_def
      is_digit_def digits_val_def show_nat.simps)

lemma object_fromEntries_closed:
  "object_fromEntries entries =
     (if list_ex (\<lambda>entry. unprintable (key_value (fst entry))) entries then Inl TypeError
      else Inr (own_properties (foldl (\<lambda>obj p. map_set obj (fst p) (snd p)) []
                  (map (\<lambda>entry. (to_string (key_value (fst entry)), snd entry)) entries))))"
  by (simp add: object_fromEntries_def define_properties_throw define_properties_return)

subsection \<open>The loop, field by field\<close>

text \<open>
  The total is a number or a string all along, so only a distance can make \<^verbatim>\<open>+=\<close> throw:
  the loop throws exactly when a distance it adds has no primitive value, and is else a
  fold of \<open>pure_step\<close>.
\<close>

lemma add_primitive_printable: "\<not> unprintable (add_primitive meters d)"
  by (simp add: add_primitive_def plus_primitive_def)

lemma step_closed:
  "\<not> unprintable (totalDistanceMeters a) \<Longrightarrow>
   step a e = (if truthy (distanceMeters e) \<and> unprintable (distanceMeters e) then Inl TypeError
               else Inr (pure_step a e))"
  by (simp add: step_def step_distance_def step_dates_def js_plus_def pure_step_def
      add_distance_def add_primitive_def)

lemma pure_step_printable: "\<not> unprintable (totalDistanceMeters (pure_step a e))"
  if "\<not> unprintable (totalDistanceMeters a)"
  using that
  by (simp add: pure_step_def add_distance_def step_dates_def step_visit_def step_activity_def
      Let_def add_primitive_printable)

lemma forEach_closed:
  "\<not> unprintable (totalDistanceMeters a) \<Longrightarrow>
   forEach a es = (if distance_throws es then Inl TypeError else Inr (foldl pure_step a es))"
proof (induction es arbitrary: a)
  case Nil
  then show ?case by (simp add: distance_throws_def)
next
  case (Cons e es)
  show ?case
    using Cons.IH [OF pure_step_printable [OF Cons.prems], of e]
    by (simp add: step_closed [OF Cons.prems] distance_throws_def)
qed

lemma init_acc_fields:
  "totalDistanceMeters init_acc = JNum (Fin 0)" "placeCounts init_acc = []"
  "visitCountsByName init_acc = []" "activityCounts init_acc = []"
  "uniquePlaceTitles init_acc = []" "minDate init_acc = Time max_time"
  "maxDate init_acc = Time (- max_time)"
  by (simp_all add: init_acc_def)

lemma forEach_init:
  "forEach init_acc es
     = (if distance_throws es then Inl TypeError else Inr (foldl pure_step init_acc es))"
  by (rule forEach_closed) (simp add: init_acc_def)

lemma visitCountsByName_foldl:
  "visitCountsByName (foldl pure_step a es) = foldl increment (visitCountsByName a) (visit_titles es)"
  by (induction es arbitrary: a)
     (simp_all add: visit_titles_def pure_step_def step_activity_def step_visit_def
        add_distance_def step_dates_def Let_def)

lemma uniquePlaceTitles_foldl:
  "uniquePlaceTitles (foldl pure_step a es) = foldl set_add (uniquePlaceTitles a) (visit_titles es)"
  by (induction es arbitrary: a)
     (simp_all add: visit_titles_def pure_step_def step_activity_def step_visit_def
        add_distance_def step_dates_def Let_def)

lemma placeCounts_foldl:
  "placeCounts (foldl pure_step a es) = foldl increment (placeCounts a) (visit_cities es)"
  by (induction es arbitrary: a)
     (simp_all add: visit_cities_def pure_step_def step_activity_def step_visit_def
        add_distance_def step_dates_def Let_def)

lemma activityCounts_foldl:
  "activityCounts (foldl pure_step a es) = foldl increment (activityCounts a) (move_activities es)"
  by (induction es arbitrary: a)
     (simp_all add: move_activities_def pure_step_def step_activity_def step_visit_def
        add_distance_def step_dates_def Let_def)

lemma totalDistance_foldl:
  "totalDistanceMeters (foldl pure_step a es)
     = foldl add_primitive (totalDistanceMeters a) (distances es)"
  by (induction es arbitrary: a)
     (simp_all add: distances_def pure_step_def step_activity_def step_visit_def
        add_distance_def step_dates_def Let_def)

lemma minDate_foldl:
  "minDate (foldl pure_step a es) =
     foldl (\<lambda>d e. if date_lt (startTime e) d then startTime e else d) (minDate a) es"
  by (induction es arbitrary: a)
     (simp_all add: pure_step_def step_activity_def step_visit_def add_distance_def
        step_dates_def Let_def)

lemma maxDate_foldl:
  "maxDate (foldl pure_step a es) =
     foldl (\<lambda>d e. if date_lt d (endTime e) then endTime e else d) (maxDate a) es"
  by (induction es arbitrary: a)
     (simp_all add: pure_step_def step_activity_def step_visit_def add_distance_def
        step_dates_def Let_def)

lemma Min_insert_insert:
  "finite S \<Longrightarrow> Min (insert (min a b) S) = min a (Min (insert b S))"
  by (cases "S = {}") (simp_all add: min.assoc)

lemma Max_insert_insert:
  "finite S \<Longrightarrow> Max (insert (max a b) S) = max a (Max (insert b S))"
  by (cases "S = {}") (simp_all add: max.assoc)

lemma min_fold_closed:
  "foldl (\<lambda>d e. if date_lt (startTime e) d then startTime e else d) (Time m) es
     = Time (Min (insert m (set (times (map startTime es)))))"
proof (induction es arbitrary: m)
  case Nil
  then show ?case by simp
next
  case (Cons e es)
  show ?case
  proof (cases "startTime e")
    case InvalidDate
    then show ?thesis by (simp add: Cons.IH)
  next
    case (Time t)
    have "(if date_lt (startTime e) (Time m) then startTime e else Time m) = Time (min m t)"
      using Time by (simp add: min_def)
    then show ?thesis
      using Time by (simp add: Cons.IH Min_insert_insert)
  qed
qed

lemma max_fold_closed:
  "foldl (\<lambda>d e. if date_lt d (endTime e) then endTime e else d) (Time m) es
     = Time (Max (insert m (set (times (map endTime es)))))"
proof (induction es arbitrary: m)
  case Nil
  then show ?case by simp
next
  case (Cons e es)
  show ?case
  proof (cases "endTime e")
    case InvalidDate
    then show ?thesis by (simp add: Cons.IH)
  next
    case (Time t)
    have "(if date_lt (Time m) (endTime e) then endTime e else Time m) = Time (max m t)"
      using Time by (simp add: max_def)
    then show ?thesis
      using Time by (simp add: Cons.IH Max_insert_insert)
  qed
qed

lemma times_valid:
  "list_all valid_date ds \<Longrightarrow> times ds = map time_of ds"
  by (induction ds rule: times.induct) simp_all

subsection \<open>What \<^verbatim>\<open>calculateStats\<close> returns\<close>

lemma title_throws_entries:
  "list_ex (\<lambda>entry. unprintable (key_value (fst entry))) (foldl increment [] (visit_titles events))
     = title_throws events"
proof -
  have "set (map fst (foldl increment [] (visit_titles events))) = set (visit_titles events)"
    by (rule tally_keys)
  then have "(\<exists>entry\<in>set (foldl increment [] (visit_titles events)).
                unprintable (key_value (fst entry)))
             \<longleftrightarrow> (\<exists>k\<in>set (visit_titles events). unprintable (key_value k))"
    by (metis (no_types, lifting) image_iff list.set_map)
  then show ?thesis
    by (auto simp: list_ex_iff title_throws_def visit_titles_def)
qed

lemma calculateStats_throws: "throws events \<Longrightarrow> calculateStats now events = Inl TypeError"
proof -
  assume t: "throws events"
  then have "events \<noteq> []" by (auto simp: throws_def title_throws_def distance_throws_def)
  then show ?thesis using t
    by (auto simp: calculateStats_def Let_def forEach_init visitCountsByName_foldl
        init_acc_fields object_fromEntries_closed title_throws_entries throws_def)
qed

lemma calculateStats_returns:
  "\<not> throws events \<Longrightarrow> \<exists>stats. calculateStats now events = Inr stats"
  by (cases "events = []")
     (simp_all add: calculateStats_def Let_def forEach_init visitCountsByName_foldl
        init_acc_fields object_fromEntries_closed title_throws_entries throws_def)

lemma returned_printable: "calculateStats now events = Inr stats \<Longrightarrow> \<not> throws events"
  using calculateStats_throws [of events now] by auto

lemma returned_fields:
  assumes "calculateStats now events = Inr stats" and "events \<noteq> []"
  shows "totalDistanceKm stats
           = math_round (div_by (to_number (foldl add_primitive (JNum (Fin 0)) (distances events)))
               1000)"
    and "totalVisits stats = length (filter (\<lambda>e. type e = VISIT) events)"
    and "uniquePlaces stats = length (foldl set_add [] (visit_titles events))"
    and "topCities stats
           = take 5 (array_sort (\<lambda>a b. snd a < snd b) (foldl increment [] (visit_cities events)))"
    and "activityBreakdown stats
           = (if foldl increment [] (move_activities events) = []
              then [(KStr ''Recorded Points'', length events)]
              else foldl increment [] (move_activities events))"
    and "dateRange stats
           = \<lparr>range_start = Time (Min (insert max_time (set (times (map startTime events))))),
              range_end = Time (Max (insert (- max_time) (set (times (map endTime events)))))\<rparr>"
    and "placeVisitCounts stats
           = own_properties (foldl (\<lambda>obj p. map_set obj (fst p) (snd p)) []
               (map (\<lambda>entry. (to_string (key_value (fst entry)), snd entry))
                  (foldl increment [] (visit_titles events))))"
proof -
  have "\<not> throws events" using assms(1) by (rule returned_printable)
  then have "stats =
      \<lparr>totalDistanceKm =
         math_round (div_by (to_number (foldl add_primitive (JNum (Fin 0)) (distances events)))
           1000),
       totalVisits = length (filter (\<lambda>e. type e = VISIT) events),
       uniquePlaces = length (foldl set_add [] (visit_titles events)),
       topCities = take 5 (array_sort (\<lambda>a b. snd a < snd b) (foldl increment [] (visit_cities events))),
       activityBreakdown =
         (if foldl increment [] (move_activities events) = []
          then [(KStr ''Recorded Points'', length events)]
          else foldl increment [] (move_activities events)),
       dateRange =
         \<lparr>range_start = Time (Min (insert max_time (set (times (map startTime events))))),
          range_end = Time (Max (insert (- max_time) (set (times (map endTime events)))))\<rparr>,
       placeVisitCounts =
         own_properties (foldl (\<lambda>obj p. map_set obj (fst p) (snd p)) []
           (map (\<lambda>entry. (to_string (key_value (fst entry)), snd entry))
              (foldl increment [] (visit_titles events))))\<rparr>"
    using assms
    by (simp add: calculateStats_def Let_def forEach_init visitCountsByName_foldl
        uniquePlaceTitles_foldl placeCounts_foldl activityCounts_foldl totalDistance_foldl
        minDate_foldl maxDate_foldl min_fold_closed max_fold_closed init_acc_fields
        object_fromEntries_closed title_throws_entries throws_def cong: if_cong)
  then show
    "totalDistanceKm stats
       = math_round (div_by (to_number (foldl add_primitive (JNum (Fin 0)) (distances events)))
           1000)"
    "totalVisits stats = length (filter (\<lambda>e. type e = VISIT) events)"
    "uniquePlaces stats = length (foldl set_add [] (visit_titles events))"
    "topCities stats
       = take 5 (array_sort (\<lambda>a b. snd a < snd b) (foldl increment [] (visit_cities events)))"
    "activityBreakdown stats
       = (if foldl increment [] (move_activities events) = []
          then [(KStr ''Recorded Points'', length events)]
          else foldl increment [] (move_activities events))"
    "dateRange stats
       = \<lparr>range_start = Time (Min (insert max_time (set (times (map startTime events))))),
          range_end = Time (Max (insert (- max_time) (set (times (map endTime events)))))\<rparr>"
    "placeVisitCounts stats
       = own_properties (foldl (\<lambda>obj p. map_set obj (fst p) (snd p)) []
           (map (\<lambda>entry. (to_string (key_value (fst entry)), snd entry))
              (foldl increment [] (visit_titles events))))"
    by simp_all
qed

lemma returned_empty:
  "calculateStats now [] = Inr stats \<Longrightarrow>
   stats = \<lparr>totalDistanceKm = Fin 0, totalVisits = 0, uniquePlaces = 0, topCities = [],
            activityBreakdown = [], dateRange = \<lparr>range_start = now, range_end = now\<rparr>,
            placeVisitCounts = []\<rparr>"
  by (simp add: calculateStats_def)

lemma no_distance: "math_round (div_by (Fin 0) 1000) = Fin 0"
  by (simp add: fl_def floor_eq_iff)

lemmas throws_eval = throws_def distance_throws_def title_throws_def

lemmas stats_eval = calculateStats_def init_acc_def step_def js_plus_def plus_primitive_def
      step_dates_def step_distance_def step_visit_def step_activity_def Let_def
      increment_def set_add_def max_time_def sample_event_def no_distance
      object_fromEntries_def property_key_def own_properties_def is_array_index_def is_digit_def

subsection \<open>The date range\<close>

text \<open>
  C1, as the code has it: for a non-empty list of events with valid dates, in which no
  distance and no title of a Visit is without a primitive value (\<open>throws\<close>),
  \<^verbatim>\<open>calculateStats\<close> returns Stats in which the start of \<^verbatim>\<open>dateRange\<close> is the least
  \<^verbatim>\<open>startTime\<close> and its end is the greatest \<^verbatim>\<open>endTime\<close>. The end takes no \<^verbatim>\<open>startTime\<close>
  into account; it is the greatest of both when no event starts after it ends.
\<close>

theorem dateRange_bounds:
  assumes ne: "events \<noteq> []"
    and valid: "list_all (\<lambda>e. valid_date (startTime e) \<and> valid_date (endTime e)) events"
    and printable: "\<not> throws events"
  shows "\<exists>stats. calculateStats now events = Inr stats
       \<and> range_start (dateRange stats)
           = Time (Min (set (map (\<lambda>e. time_of (startTime e)) events)))
       \<and> range_end (dateRange stats)
           = Time (Max (set (map (\<lambda>e. time_of (endTime e)) events)))
       \<and> (list_all (\<lambda>e. time_of (startTime e) \<le> time_of (endTime e)) events \<longrightarrow>
            range_end (dateRange stats)
              = Time (Max (set (map (\<lambda>e. time_of (startTime e)) events)
                           \<union> set (map (\<lambda>e. time_of (endTime e)) events))))"
proof -
  obtain stats where ret: "calculateStats now events = Inr stats"
    using calculateStats_returns [OF printable] by blast
  note dateRange_closed = returned_fields(6) [OF ret ne]
  let ?S = "set (map (\<lambda>e. time_of (startTime e)) events)"
  let ?E = "set (map (\<lambda>e. time_of (endTime e)) events)"
  have vs: "list_all valid_date (map startTime events)"
    and ve: "list_all valid_date (map endTime events)"
    using valid by (simp_all add: list_all_iff)
  have ts: "set (times (map startTime events)) = ?S"
    by (simp add: times_valid [OF vs] comp_def)
  have te: "set (times (map endTime events)) = ?E"
    by (simp add: times_valid [OF ve] comp_def)
  have Sne: "?S \<noteq> {}" and Ene: "?E \<noteq> {}" using ne by simp_all
  have Sle: "\<forall>t\<in>?S. t \<le> max_time"
  proof
    fix t assume "t \<in> ?S"
    then obtain e where e: "e \<in> set events" "t = time_of (startTime e)" by auto
    with valid have "valid_date (startTime e)" by (simp add: list_all_iff)
    with e show "t \<le> max_time" by (cases "startTime e") simp_all
  qed
  have Ege: "\<forall>t\<in>?E. - max_time \<le> t"
  proof
    fix t assume "t \<in> ?E"
    then obtain e where e: "e \<in> set events" "t = time_of (endTime e)" by auto
    with valid have "valid_date (endTime e)" by (simp add: list_all_iff)
    with e show "- max_time \<le> t" by (cases "endTime e") simp_all
  qed
  have "Min ?S \<in> ?S" using Sne by (intro Min_in) simp_all
  then have "Min ?S \<le> max_time" using Sle by blast
  moreover have "Min (insert max_time ?S) = min max_time (Min ?S)"
    using Sne by (intro Min_insert) simp_all
  ultimately have mn: "Min (insert max_time ?S) = Min ?S" by (simp only: min_absorb2)
  have "Max ?E \<in> ?E" using Ene by (intro Max_in) simp_all
  then have "- max_time \<le> Max ?E" using Ege by blast
  moreover have "Max (insert (- max_time) ?E) = max (- max_time) (Max ?E)"
    using Ene by (intro Max_insert) simp_all
  ultimately have mx: "Max (insert (- max_time) ?E) = Max ?E" by (simp only: max_absorb2)
  have "range_start (dateRange stats)
          = Time (Min (insert max_time (set (times (map startTime events)))))"
    by (simp only: dateRange_closed DateRange.select_convs)
  then have start: "range_start (dateRange stats) = Time (Min ?S)"
    by (simp only: ts mn)
  have "range_end (dateRange stats)
          = Time (Max (insert (- max_time) (set (times (map endTime events)))))"
    by (simp only: dateRange_closed DateRange.select_convs)
  then have "end": "range_end (dateRange stats) = Time (Max ?E)"
    by (simp only: te mx)
  have both: "Max (?S \<union> ?E) = Max ?E"
    if le: "list_all (\<lambda>e. time_of (startTime e) \<le> time_of (endTime e)) events"
  proof -
    have "Max ?S \<le> Max ?E"
    proof -
      have "\<forall>s\<in>?S. s \<le> Max ?E"
      proof
        fix s assume "s \<in> ?S"
        then obtain e where e: "e \<in> set events" "s = time_of (startTime e)" by auto
        with le have "s \<le> time_of (endTime e)" by (simp add: list_all_iff)
        moreover have "time_of (endTime e) \<le> Max ?E" using e by simp
        ultimately show "s \<le> Max ?E" by linarith
      qed
      then show ?thesis using Sne by simp
    qed
    then show ?thesis using Sne Ene by (simp add: Max_Un max_def)
  qed
  show ?thesis using ret start "end" both by simp
qed

text \<open>Two events, the later one first.\<close>

theorem dateRange_bounds_witness:
  "\<exists>stats. calculateStats (Time 0)
      [sample_event VISIT ''a'' 30 40 None None None, sample_event MOVE ''b'' 10 20 None None None]
        = Inr stats
     \<and> range_start (dateRange stats) = Time 10
     \<and> range_end (dateRange stats) = Time 40"
  using dateRange_bounds [of "[sample_event VISIT ''a'' 30 40 None None None,
      sample_event MOVE ''b'' 10 20 None None None]" "Time 0"]
  by (simp add: sample_event_def max_time_def throws_eval)

text \<open>
  One event that starts at 10 and ends at 5: the end of the range is 5, the greatest of
  its \<^verbatim>\<open>startTime\<close> and \<^verbatim>\<open>endTime\<close> is 10.
\<close>

theorem dateRange_end_counterexample:
  "calculateStats (Time 0) [sample_event VISIT ''a'' 10 5 None None None]
     = Inr \<lparr>totalDistanceKm = Fin 0, totalVisits = 1, uniquePlaces = 1, topCities = [],
            activityBreakdown = [(KStr ''Recorded Points'', 1)],
            dateRange = \<lparr>range_start = Time 10, range_end = Time 5\<rparr>,
            placeVisitCounts = [(''a'', 1)]\<rparr>
   \<and> Max (set (map (\<lambda>e. time_of (startTime e)) [sample_event VISIT ''a'' 10 5 None None None])
          \<union> set (map (\<lambda>e. time_of (endTime e)) [sample_event VISIT ''a'' 10 5 None None None]))
     = 10"
  by (simp add: stats_eval del: div_by.simps math_round.simps)

subsection \<open>Coherence of the counts\<close>

lemma tally_positive: "\<forall>v\<in>set (map snd (foldl increment [] ks)). 0 < v"
proof
  fix v assume "v \<in> set (map snd (foldl increment [] ks))"
  then obtain k where "(k, v) \<in> set (foldl increment [] ks)" by auto
  then have "k \<in> set ks \<and> v = count_list ks k" by (rule tally_entry)
  then have "count_list ks k \<noteq> 0" and "v = count_list ks k" by (simp_all add: count_list_0_iff)
  then show "0 < v" by simp
qed

lemma titles_collide_iff:
  "\<not> title_throws events \<Longrightarrow>
   titles_collide events
     \<longleftrightarrow> \<not> distinct (map (\<lambda>k. to_string (key_value k))
                       (map fst (foldl increment [] (visit_titles events))))"
proof -
  assume p: "\<not> title_throws events"
  let ?ks = "map fst (foldl increment [] (visit_titles events))"
  let ?f = "\<lambda>k. to_string (key_value k)"
  have printable: "\<forall>k\<in>set (visit_titles events). property_key k = Inr (?f k)"
    using p by (auto simp: title_throws_def list_ex_iff visit_titles_def property_key_def)
  have d: "distinct ?ks"
    by (simp add: keys_foldl_increment distinct_foldl_set_add)
  have s: "set ?ks = set (visit_titles events)" by (rule tally_keys)
  have "distinct (map property_key (remdups (visit_titles events)))
          \<longleftrightarrow> inj_on property_key (set (visit_titles events))"
    by (simp add: distinct_map)
  also have "\<dots> \<longleftrightarrow> inj_on ?f (set (visit_titles events))"
    using printable by (auto simp: inj_on_def)
  also have "\<dots> \<longleftrightarrow> distinct (map ?f ?ks)"
  proof -
    have "distinct (map ?f ?ks) \<longleftrightarrow> distinct ?ks \<and> inj_on ?f (set ?ks)" by (rule distinct_map)
    then show ?thesis using d by (simp only: s simp_thms)
  qed
  finally show ?thesis by (simp only: titles_collide_def visit_titles_def)
qed

lemma string_titles_apart: "string_titles events \<Longrightarrow> \<not> title_throws events \<and> \<not> titles_collide events"
proof -
  assume st: "string_titles events"
  have str: "\<exists>s. k = KStr s" if "k \<in> set (visit_titles events)" for k
  proof -
    from that obtain e where "e \<in> set events" "type e = VISIT" "k = title e"
      by (auto simp: visit_titles_def)
    with st have "is_string (key_value k)" by (auto simp: string_titles_def list_all_iff)
    then show ?thesis by (cases k) simp_all
  qed
  have "inj_on property_key (set (visit_titles events))"
  proof (rule inj_onI)
    fix a b
    assume "a \<in> set (visit_titles events)" "b \<in> set (visit_titles events)"
      and eq: "property_key a = property_key b"
    then obtain s t where "a = KStr s" "b = KStr t" using str by blast
    then show "a = b" using eq by (simp add: property_key_def)
  qed
  then have "\<not> titles_collide events"
    by (simp add: titles_collide_def visit_titles_def [symmetric] distinct_map)
  moreover have "\<not> title_throws events"
  proof
    assume "title_throws events"
    then obtain e where "e \<in> set events" "type e = VISIT" "unprintable (key_value (title e))"
      by (auto simp: title_throws_def list_ex_iff)
    moreover from this have "title e \<in> set (visit_titles events)" by (auto simp: visit_titles_def)
    ultimately show False using str by fastforce
  qed
  ultimately show ?thesis by simp
qed

lemma typed_events_return:
  "string_titles events \<Longrightarrow> list_all (\<lambda>e. \<not> unprintable (distanceMeters e)) events \<Longrightarrow>
   \<not> throws events"
  using string_titles_apart [of events]
  by (auto simp: throws_def distance_throws_def list_ex_iff list_all_iff)

text \<open>
  C10, as the code has it. \<^verbatim>\<open>Object.fromEntries\<close> gives two different titles with the
  same property name one property, which holds the count of the later one. For a list
  in which no distance and no title of a Visit is without a primitive value (\<open>throws\<close>),
  \<^verbatim>\<open>calculateStats\<close> returns Stats in which the names of \<^verbatim>\<open>placeVisitCounts\<close> are pairwise
  distinct and
  \<^item> if no two different titles of Visit events have the same property name (so whenever
    all the titles are strings), the sum of the values is \<^verbatim>\<open>totalVisits\<close> and the number
    of the names is \<^verbatim>\<open>uniquePlaces\<close>;
  \<^item> if two do, the sum is less than \<^verbatim>\<open>totalVisits\<close> and the number of names is less
    than \<^verbatim>\<open>uniquePlaces\<close>.
\<close>

theorem stats_coherent:
  assumes printable: "\<not> throws events"
  shows "\<exists>stats. calculateStats now events = Inr stats
       \<and> distinct (map fst (placeVisitCounts stats))
       \<and> sum_list (map snd (placeVisitCounts stats)) \<le> totalVisits stats
       \<and> length (placeVisitCounts stats) \<le> uniquePlaces stats
       \<and> (sum_list (map snd (placeVisitCounts stats)) = totalVisits stats
            \<longleftrightarrow> \<not> titles_collide events)
       \<and> (length (placeVisitCounts stats) = uniquePlaces stats \<longleftrightarrow> \<not> titles_collide events)
       \<and> (string_titles events \<longrightarrow> \<not> titles_collide events)"
proof (cases "events = []")
  case True
  then show ?thesis
    by (simp add: calculateStats_def titles_collide_def string_titles_def)
next
  case False
  obtain stats where ret: "calculateStats now events = Inr stats"
    using calculateStats_returns [OF printable] by blast
  let ?m = "foldl increment [] (visit_titles events)"
  let ?ps = "map (\<lambda>entry. (to_string (key_value (fst entry)), snd entry)) ?m"
  let ?obj = "foldl (\<lambda>obj p. map_set obj (fst p) (snd p)) [] ?ps"
  have p: "\<not> title_throws events" using printable by (simp add: throws_def)
  have pvc: "placeVisitCounts stats = own_properties ?obj" by (rule returned_fields(7) [OF ret False])
  have tv: "totalVisits stats = length (visit_titles events)"
    by (simp add: returned_fields(2) [OF ret False] visit_titles_def)
  have up: "uniquePlaces stats = length ?m"
    using arg_cong [OF keys_foldl_increment [of "[]" "visit_titles events"], of length]
    by (simp add: returned_fields(3) [OF ret False])
  have m: "mset (placeVisitCounts stats) = mset ?obj" by (simp only: pvc mset_own_properties)
  have sum_eq: "sum_list (map snd (placeVisitCounts stats)) = sum_list (map snd ?obj)"
    using arg_cong [OF m, of "\<lambda>M. sum_mset (image_mset snd M)"] by (simp add: sum_mset_sum_list [symmetric] del: sum_mset_sum_list)
  have len_eq: "length (placeVisitCounts stats) = length ?obj" using m by (rule mset_eq_length)
  have "mset (map fst (placeVisitCounts stats)) = mset (map fst ?obj)"
    using arg_cong [OF m, of "image_mset fst"] by simp
  then have "distinct (map fst (placeVisitCounts stats)) \<longleftrightarrow> distinct (map fst ?obj)"
    by (rule mset_eq_imp_distinct_iff)
  moreover have "distinct (map fst ?obj)"
    by (simp only: keys_foldl_put list.map distinct_foldl_set_add distinct.simps)
  ultimately have dist: "distinct (map fst (placeVisitCounts stats))" by simp
  have sum_m: "sum_list (map snd ?ps) = length (visit_titles events)"
    by (simp add: comp_def sum_foldl_increment)
  have len_m: "length ?ps = length ?m" by simp
  have pos: "\<forall>v\<in>set (map snd ?ps). 0 < v" using tally_positive [of "visit_titles events"] by (simp add: comp_def)
  have keys: "map fst ?ps = map (\<lambda>k. to_string (key_value k)) (map fst ?m)" by (simp add: comp_def)
  have coll: "titles_collide events \<longleftrightarrow> \<not> distinct (map fst ?ps)"
    by (simp only: keys titles_collide_iff [OF p])
  note S = sum_foldl_put [OF pos] and L = length_foldl_put [of ?ps]
  have "sum_list (map snd (placeVisitCounts stats)) \<le> totalVisits stats"
    using S by (simp only: sum_eq tv sum_m)
  moreover have "length (placeVisitCounts stats) \<le> uniquePlaces stats"
    using L by (simp only: len_eq up len_m)
  moreover have "sum_list (map snd (placeVisitCounts stats)) = totalVisits stats
            \<longleftrightarrow> \<not> titles_collide events"
    using S by (simp only: sum_eq tv sum_m coll) simp
  moreover have "length (placeVisitCounts stats) = uniquePlaces stats \<longleftrightarrow> \<not> titles_collide events"
    using L by (simp only: len_eq up len_m coll) simp
  moreover have "string_titles events \<longrightarrow> \<not> titles_collide events"
    using string_titles_apart by blast
  ultimately show ?thesis using dist ret by blast
qed

text \<open>The sample trip: four visits to four places with string titles.\<close>

theorem stats_coherent_witness:
  "\<exists>stats. calculateStats (Time 0) sample_trip = Inr stats
     \<and> string_titles sample_trip
     \<and> sum_list (map snd (placeVisitCounts stats)) = totalVisits stats
     \<and> length (placeVisitCounts stats) = uniquePlaces stats
     \<and> totalVisits stats = 4"
proof -
  have s: "string_titles sample_trip"
    by (simp add: string_titles_def sample_trip_def sample_event_def)
  have p: "\<not> throws sample_trip"
    by (simp add: throws_eval sample_trip_def sample_event_def)
  obtain stats where r: "calculateStats (Time 0) sample_trip = Inr stats"
    and coherent: "sum_list (map snd (placeVisitCounts stats)) = totalVisits stats
       \<longleftrightarrow> \<not> titles_collide sample_trip"
      "length (placeVisitCounts stats) = uniquePlaces stats \<longleftrightarrow> \<not> titles_collide sample_trip"
      "string_titles sample_trip \<longrightarrow> \<not> titles_collide sample_trip"
    using stats_coherent [OF p, of "Time 0"] by blast
  have "totalVisits stats = 4"
    using returned_fields(2) [OF r] by (simp add: sample_trip_def sample_event_def)
  then show ?thesis using coherent s r by blast
qed

text \<open>
  Two visits, one to a place named with the number 1 and one to a place named with the
  string \<^verbatim>\<open>"1"\<close>: two visits and two places, and the one property \<^verbatim>\<open>"1"\<close> with the value 1.
\<close>

theorem stats_coherent_counterexample:
  "calculateStats (Time 0) [titled_visit (KNum (Fin 1)), titled_visit (KStr ''1'')]
     = Inr \<lparr>totalDistanceKm = Fin 0, totalVisits = 2, uniquePlaces = 2, topCities = [],
            activityBreakdown = [(KStr ''Recorded Points'', 2)],
            dateRange = \<lparr>range_start = Time 0, range_end = Time 0\<rparr>,
            placeVisitCounts = [(''1'', 1)]\<rparr>
   \<and> titles_collide [titled_visit (KNum (Fin 1)), titled_visit (KStr ''1'')]"
  by (simp add: stats_eval titled_visit_def titles_collide_def number_to_string_1 digits_val_def
      show_nat.simps del: div_by.simps math_round.simps number_to_string.simps)

subsection \<open>The stable sort\<close>

lemma set_sort_insert: "set (sort_insert gt x ys) = insert x (set ys)"
  by (induction ys) auto

lemma set_array_sort: "set (array_sort gt xs) = set xs"
  by (induction xs) (simp_all add: set_sort_insert)

lemma mset_sort_insert: "mset (sort_insert gt x ys) = add_mset x (mset ys)"
  by (induction ys) auto

lemma mset_array_sort: "mset (array_sort gt xs) = mset xs"
  by (induction xs) (simp_all add: mset_sort_insert)

lemma sorted_sort_insert:
  assumes "sorted_wrt (\<lambda>p q. f q < f p \<or> (f p = f q \<and> R p q)) ys"
    and "\<forall>y\<in>set ys. R x y"
  shows "sorted_wrt (\<lambda>p q. f q < f p \<or> (f p = f q \<and> R p q))
           (sort_insert (\<lambda>a b. (f a :: nat) < f b) x ys)"
  using assms
proof (induction ys)
  case Nil
  then show ?case by simp
next
  case (Cons y ys)
  show ?case
  proof (cases "f x < f y")
    case True
    then show ?thesis using Cons by (auto simp: set_sort_insert)
  next
    case False
    have "f z \<le> f y" if "z \<in> set ys" for z using Cons.prems(1) that by auto
    then have "f z < f x \<or> (f x = f z \<and> R x z)" if "z \<in> set (y # ys)" for z
      using False Cons.prems(2) that by (metis leD le_less_trans linorder_neqE_nat set_ConsD)
    then show ?thesis using False Cons.prems(1) by auto
  qed
qed

lemma sorted_array_sort:
  "sorted_wrt R xs \<Longrightarrow>
   sorted_wrt (\<lambda>p q. f q < f p \<or> (f p = f q \<and> R p q)) (array_sort (\<lambda>a b. (f a :: nat) < f b) xs)"
proof (induction xs)
  case Nil
  then show ?case by simp
next
  case (Cons x xs)
  then show ?case
    by (simp add: sorted_sort_insert set_array_sort)
qed

subsection \<open>Order of first insertion\<close>

lemma visit_cities_snoc:
  "visit_cities (es @ [e]) =
     visit_cities es @ (if type e = VISIT \<and> str_truthy (city e) then [the (city e)] else [])"
  by (simp add: visit_cities_def)

lemma in_visit_cities:
  "n \<in> set (visit_cities es) \<longleftrightarrow> (\<exists>e\<in>set es. type e = VISIT \<and> city e = Some n \<and> n \<noteq> [])"
proof (induction es)
  case Nil
  then show ?case by (simp add: visit_cities_def)
next
  case (Cons e es)
  have "str_truthy (city e) \<and> the (city e) = n \<longleftrightarrow> city e = Some n \<and> n \<noteq> []"
    by (cases "city e") auto
  then show ?case using Cons by (auto simp: visit_cities_def)
qed

lemma first_seen_less:
  "n \<in> set (visit_cities es) \<Longrightarrow> first_seen n es < length es"
proof -
  assume "n \<in> set (visit_cities es)"
  then obtain e where e: "e \<in> set es" "type e = VISIT \<and> city e = Some n"
    unfolding in_visit_cities by auto
  have "length (takeWhile (\<lambda>e. \<not> (type e = VISIT \<and> city e = Some n)) es) \<noteq> length es"
  proof
    assume "length (takeWhile (\<lambda>e. \<not> (type e = VISIT \<and> city e = Some n)) es) = length es"
    then have "takeWhile (\<lambda>e. \<not> (type e = VISIT \<and> city e = Some n)) es = es"
      by (metis takeWhile_eq_take take_all order_refl)
    then have "\<forall>x\<in>set es. \<not> (type x = VISIT \<and> city x = Some n)"
      by (simp only: takeWhile_eq_all_conv)
    then show False using e by blast
  qed
  then show ?thesis
    unfolding first_seen_def using length_takeWhile_le [of _ es]
    by (simp add: le_neq_implies_less)
qed

lemma first_seen_append:
  "n \<in> set (visit_cities es) \<Longrightarrow> first_seen n (es @ es') = first_seen n es"
proof -
  assume "n \<in> set (visit_cities es)"
  then obtain e where "e \<in> set es" "\<not> \<not> (type e = VISIT \<and> city e = Some n)"
    unfolding in_visit_cities by auto
  then show ?thesis unfolding first_seen_def by (subst takeWhile_append1) auto
qed

lemma first_seen_new:
  "n \<notin> set (visit_cities es) \<Longrightarrow> n \<noteq> [] \<Longrightarrow> first_seen n (es @ es') = length es + first_seen n es'"
proof -
  assume "n \<notin> set (visit_cities es)" "n \<noteq> []"
  then have "\<forall>e\<in>set es. \<not> (type e = VISIT \<and> city e = Some n)"
    unfolding in_visit_cities by auto
  then show ?thesis unfolding first_seen_def by (simp add: takeWhile_append2)
qed

lemma set_add_old: "k \<in> set s \<Longrightarrow> set_add s k = s"
  by (simp add: set_add_def)

lemma set_add_new: "k \<notin> set s \<Longrightarrow> set_add s k = s @ [k]"
  by (simp add: set_add_def)

lemma keys_in_insertion_order:
  "sorted_wrt (\<lambda>a b. first_seen a es < first_seen b es) (foldl set_add [] (visit_cities es))"
proof (induction es rule: rev_induct)
  case Nil
  then show ?case by (simp add: visit_cities_def)
next
  case (snoc e es)
  let ?ks = "foldl set_add [] (visit_cities es)"
  have ks: "set ?ks = set (visit_cities es)" by (simp add: set_foldl_set_add)
  have old: "sorted_wrt (\<lambda>a b. first_seen a (es @ [e]) < first_seen b (es @ [e])) ?ks"
    using snoc.IH
    by (rule sorted_wrt_mono_rel [rotated]) (simp add: ks first_seen_append)
  show ?case
  proof (cases "type e = VISIT \<and> str_truthy (city e)")
    case False
    then show ?thesis using old by (auto simp: visit_cities_snoc)
  next
    case True
    then obtain c where c: "city e = Some c" "c \<noteq> []" by (cases "city e") auto
    show ?thesis
    proof (cases "c \<in> set ?ks")
      case True
      then show ?thesis using old \<open>type e = VISIT \<and> str_truthy (city e)\<close> c
        by (simp add: visit_cities_snoc set_add_old)
    next
      case False
      then have "first_seen c (es @ [e]) = length es + first_seen c [e]"
        using c by (intro first_seen_new) (simp_all add: ks)
      moreover have "first_seen c [e] = 0"
        using c \<open>type e = VISIT \<and> str_truthy (city e)\<close> by (simp add: first_seen_def)
      ultimately have new: "first_seen c (es @ [e]) = length es" by simp
      have "first_seen a (es @ [e]) < first_seen c (es @ [e])" if "a \<in> set ?ks" for a
        using that new by (simp add: ks first_seen_append first_seen_less)
      then show ?thesis using old False True c
        by (simp add: visit_cities_snoc set_add_new sorted_wrt_append)
    qed
  qed
qed

lemma placeCounts_sorted:
  "sorted_wrt (\<lambda>p q. first_seen (fst p) es < first_seen (fst q) es)
     (foldl increment [] (visit_cities es))"
proof -
  have "sorted_wrt (\<lambda>a b. first_seen a es < first_seen b es)
          (map fst (foldl increment [] (visit_cities es)))"
    using keys_in_insertion_order [of es] by (simp add: keys_foldl_increment)
  then show ?thesis by (simp add: sorted_wrt_map)
qed

lemma count_visit_cities:
  "n \<noteq> [] \<Longrightarrow> count_list (visit_cities es) n = city_visits n es"
proof (induction es)
  case Nil
  then show ?case by (simp add: visit_cities_def city_visits_def)
next
  case (Cons e es)
  then show ?case
    by (cases "city e") (auto simp: visit_cities_def city_visits_def)
qed

text \<open>
  C4: for a list in which no distance and no title of a Visit is without a primitive
  value (\<open>throws\<close>), \<^verbatim>\<open>calculateStats\<close> returns Stats in which \<^verbatim>\<open>topCities\<close> has at most 5
  entries; the count of an entry is the number of Visit events that carry its city; the
  counts descend; and of two entries with the same count the one whose city the input
  shows first comes first.
\<close>

theorem topCities_ranking:
  assumes printable: "\<not> throws events"
  shows "\<exists>stats. calculateStats now events = Inr stats
   \<and> length (topCities stats) \<le> 5
   \<and> (\<forall>(n, c) \<in> set (topCities stats). c = city_visits n events)
   \<and> sorted_wrt (\<lambda>p q. snd q \<le> snd p) (topCities stats)
   \<and> (\<forall>i j. i < j \<and> j < length (topCities stats)
          \<and> snd (topCities stats ! i) = snd (topCities stats ! j)
        \<longrightarrow> first_seen (fst (topCities stats ! i)) events
              < first_seen (fst (topCities stats ! j)) events)"
proof (cases "events = []")
  case True
  then show ?thesis by (simp add: calculateStats_def)
next
  case False
  obtain stats where ret: "calculateStats now events = Inr stats"
    using calculateStats_returns [OF printable] by blast
  let ?pc = "foldl increment [] (visit_cities events)"
  let ?Q = "\<lambda>p q. snd q < snd p \<or>
              (snd p = snd q \<and> first_seen (fst p) events < first_seen (fst q) events)"
  let ?tc = "take 5 (array_sort (\<lambda>a b. snd a < snd b) ?pc)"
  have tc: "topCities stats = ?tc" by (rule returned_fields(4) [OF ret False])
  have "sorted_wrt ?Q (array_sort (\<lambda>a b. snd a < snd b) ?pc)"
    using sorted_array_sort [OF placeCounts_sorted, of snd events] by simp
  then have Q: "sorted_wrt ?Q ?tc" by (rule sorted_wrt_take)
  have len: "length ?tc \<le> 5" by simp
  have cnt: "c = city_visits n events" if "(n, c) \<in> set ?tc" for n c
  proof -
    have "(n, c) \<in> set ?pc" using that set_take_subset [of 5] by (fastforce simp: set_array_sort)
    then have nc: "n \<in> set (visit_cities events) \<and> c = count_list (visit_cities events) n"
      by (rule tally_entry)
    then have "n \<noteq> []" unfolding in_visit_cities by blast
    then show ?thesis using nc by (simp add: count_visit_cities)
  qed
  have desc: "sorted_wrt (\<lambda>p q. snd q \<le> snd p) ?tc"
    using Q by (rule sorted_wrt_mono_rel [rotated]) auto
  have ties: "first_seen (fst (?tc ! i)) events < first_seen (fst (?tc ! j)) events"
    if "i < j" "j < length ?tc" "snd (?tc ! i) = snd (?tc ! j)" for i j
  proof -
    have "?Q (?tc ! i) (?tc ! j)" using Q that(1,2) by (simp only: sorted_wrt_iff_nth_less)
    then show ?thesis using that(3) by simp
  qed
  have "length (topCities stats) \<le> 5
   \<and> (\<forall>(n, c) \<in> set (topCities stats). c = city_visits n events)
   \<and> sorted_wrt (\<lambda>p q. snd q \<le> snd p) (topCities stats)
   \<and> (\<forall>i j. i < j \<and> j < length (topCities stats)
          \<and> snd (topCities stats ! i) = snd (topCities stats ! j)
        \<longrightarrow> first_seen (fst (topCities stats ! i)) events
              < first_seen (fst (topCities stats ! j)) events)"
    unfolding tc using len cnt desc ties by (auto simp del: length_take)
  then show ?thesis using ret by blast
qed

text \<open>Paris is visited twice, Rome and then Oslo once.\<close>

theorem topCities_ranking_witness:
  "map_sum id topCities (calculateStats (Time 0) sample_trip)
     = Inr [(''Paris'', 2), (''Rome'', 1), (''Oslo'', 1)]
   \<and> city_visits ''Paris'' sample_trip = 2
   \<and> first_seen ''Rome'' sample_trip < first_seen ''Oslo'' sample_trip"
  using topCities_ranking [of sample_trip "Time 0"]
  by (simp add: sample_trip_def stats_eval city_visits_def first_seen_def throws_eval
      del: num_add.simps div_by.simps math_round.simps)








subsection \<open>Independence of the order of the events\<close>







section \<open>Properties of the normalizer\<close>

subsection \<open>Evaluation on concrete documents\<close>

lemmas record_eval = processItem_def record_startTime_def record_endTime_def legacy_def
  legacy_visit_def legacy_activity_def legacy_visit_lat_def legacy_visit_lng_def
  legacy_activity_lat_def legacy_activity_lng_def semantic_visit_def semantic_activity_def
  raw_signal_def new_Date_def js_or_def js_get_opt_def Let_def

lemmas doc_eval = parseTimelineData_def findDataArray_def priorityKeys_def stats_throw_def
  show_nat.simps search.simps

lemmas date_eval = iso_shape_def iso_time_def days_from_civil_def digits_val_def is_digit_def
  max_time_def

lemmas string_eval = is_decimal_def degree_def is_digit_def is_space_def digits_val_def pow10_def

lemma e7_home_lat: "e7ToFloat (JNum (Fin 123456789)) = Fin (3474999680854737 / 281474976710656)"
  by (simp add: float_eval)

lemma e7_home_lng: "e7ToFloat (JNum (Fin 987654321)) = Fin (108593741016271 / 1099511627776)"
  by (simp add: float_eval)

lemma e7_end_lat: "e7ToFloat (JNum (Fin 30000000)) = Fin 3"
  by (simp add: float_eval)

lemma e7_end_lng: "e7ToFloat (JNum (Fin 40000000)) = Fin 4"
  by (simp add: float_eval)

lemma fl_1: "fl 1 = Fin 1"
  by (simp add: float_eval)

lemma fl_2: "fl 2 = Fin 2"
  by (simp add: float_eval)

lemma fl_cafe_lat: "fl (69 / 2) = Fin (69 / 2)"
  by (simp add: float_eval)

lemma fl_cafe_lng: "fl (- (473 / 4)) = Fin (- (473 / 4))"
  by (simp add: float_eval)

lemma parse_1_2: "parseLatLngString (deg_pair ''1'' ''2'') = Some (Fin 1, Fin 2)"
proof -
  have "parseLatLngString (deg_pair ''1'' ''2'') = Some (fl 1, fl 2)"
    by (simp add: deg_pair_def match_here_def parseFloat_def string_eval Let_def)
  then show ?thesis by (simp only: fl_1 fl_2)
qed

lemma parse_cafe:
  "parseLatLngString (deg_pair ''34.5'' ''-118.25'') = Some (Fin (69 / 2), Fin (- (473 / 4)))"
proof -
  have "parseLatLngString (deg_pair ''34.5'' ''-118.25'') = Some (fl (69 / 2), fl (- (473 / 4)))"
    by (simp add: deg_pair_def match_here_def parseFloat_def string_eval Let_def)
  then show ?thesis by (simp only: fl_cafe_lat fl_cafe_lng)
qed

subsection \<open>The result of the whole parse\<close>

lemma stats_throw_sort:
  "stats_throw (array_sort gt events) = stats_throw events"
  by (simp add: stats_throw_def list_ex_iff set_array_sort)

text \<open>
  The loop over the records: it throws exactly when some record does, and otherwise
  returns the events of all the records, in the order of the records.
\<close>

lemma collect_closed:
  "collect D i items =
     (if \<exists>k<length items. isl (processItem D (i + k) (items ! k)) then Inl TypeError
      else Inr (concat (map (\<lambda>k. emitted (processItem D (i + k) (items ! k))) [0..<length items])))"
proof (induction items arbitrary: i)
  case Nil
  then show ?case by simp
next
  case (Cons obj rest)
  have ex: "(\<exists>k<length (obj # rest). isl (processItem D (i + k) ((obj # rest) ! k)))
              \<longleftrightarrow> isl (processItem D i obj)
                  \<or> (\<exists>k<length rest. isl (processItem D (Suc i + k) (rest ! k)))"
    by (simp add: Ex_less_Suc2)
  have idx: "[0..<length (obj # rest)] = 0 # map Suc [0..<length rest]"
    by (simp add: upt_conv_Cons map_Suc_upt del: upt_Suc)
  have cat: "concat (map (\<lambda>k. emitted (processItem D (i + k) ((obj # rest) ! k)))
                     [0..<length (obj # rest)])
             = emitted (processItem D i obj)
               @ concat (map (\<lambda>k. emitted (processItem D (Suc i + k) (rest ! k))) [0..<length rest])"
    by (simp only: idx) (simp add: comp_def)
  show ?case
  proof (cases "processItem D i obj")
    case (Inl x)
    then show ?thesis by (cases x) (simp only: ex cat, simp)
  next
    case (Inr pushed)
    show ?thesis
      using Inr Cons [of "Suc i"] by (simp only: ex cat) (simp del: upt_Suc)
  qed
qed

lemma collect_throws:
  "(\<exists>x. collect D 0 rawItems = Inl x) \<longleftrightarrow> (\<exists>k<length rawItems. record_throws D rawItems k)"
  by (simp add: collect_closed [of D 0 rawItems] record_throws_def del: upt_Suc)

lemma collect_returns:
  "collect D 0 rawItems = Inr pushed \<longleftrightarrow>
     (\<forall>k<length rawItems. \<not> record_throws D rawItems k)
     \<and> pushed = concat (map (record_events D rawItems) [0..<length rawItems])"
  unfolding record_events_def [abs_def] record_throws_def
  by (auto simp: collect_closed [of D 0 rawItems] simp del: upt_Suc)

lemma no_events:
  "concat (map (record_events D rawItems) [0..<length rawItems]) = []
     \<longleftrightarrow> (\<forall>k<length rawItems. record_events D rawItems k = [])"
  by auto

lemma some_event_throws:
  "stats_throw (concat (map (record_events D rawItems) [0..<length rawItems]))
     \<longleftrightarrow> (\<exists>k<length rawItems. \<exists>e\<in>set (record_events D rawItems k).
            ev_type e = VISIT \<and> unprintable (ev_title e))"
  by (auto simp: stats_throw_def list_ex_iff)

text \<open>
  The events the records push have a distance that is absent or has a primitive value
  (the subtitle has divided it), so on them \<^verbatim>\<open>calculateStats\<close> throws exactly when
  \<open>stats_throw\<close> says so: when a Visit has a title without a primitive value. A result
  that is not \<^verbatim>\<open>null\<close> comes with its statistics.
\<close>

lemma path_points_distance:
  "path_points D index st pIdx pts = Inr events \<Longrightarrow> e \<in> set events \<Longrightarrow>
   ev_distanceMeters e = JUndefined"
proof (induction pts arbitrary: pIdx events)
  case Nil
  then show ?case by simp
next
  case (Cons pathPt rest)
  from Cons.prems show ?case
    by (auto split: option.splits sum.splits if_splits dest: Cons.IH)
qed

lemma timeline_path_distance:
  "timeline_path D index st v = Inr events \<Longrightarrow> e \<in> set events \<Longrightarrow>
   ev_distanceMeters e = JUndefined"
  by (cases v) (auto dest: path_points_distance)

lemma semantic_visit_distance:
  "semantic_visit index obj start end = Inr events \<Longrightarrow> e \<in> set events \<Longrightarrow>
   ev_distanceMeters e = JUndefined"
  unfolding semantic_visit_def Let_def
  by (auto split: option.splits sum.splits if_splits)

lemma semantic_activity_distance:
  "semantic_activity index obj start end = Inr events \<Longrightarrow> e \<in> set events \<Longrightarrow>
   \<not> unprintable (ev_distanceMeters e)"
  unfolding semantic_activity_def Let_def
  by (auto split: option.splits sum.splits if_splits jsval.splits)

lemma raw_signal_distance:
  "raw_signal D index obj = Inr events \<Longrightarrow> e \<in> set events \<Longrightarrow> ev_distanceMeters e = JUndefined"
  unfolding raw_signal_def Let_def
  by (auto split: option.splits sum.splits if_splits)

lemma legacy_visit_distance:
  "legacy_visit D index obj placeVisit = Inr events \<Longrightarrow> e \<in> set events \<Longrightarrow>
   ev_distanceMeters e = JUndefined"
  unfolding legacy_visit_def Let_def
  by (auto split: option.splits sum.splits if_splits)

lemma legacy_activity_distance:
  "legacy_activity D index obj seg = Inr events \<Longrightarrow> e \<in> set events \<Longrightarrow>
   \<not> unprintable (ev_distanceMeters e)"
  unfolding legacy_activity_def Let_def
  by (auto split: option.splits sum.splits if_splits)

lemma pushed_distance:
  assumes "e \<in> set (emitted (processItem D index obj))"
  shows "\<not> unprintable (ev_distanceMeters e)"
proof -
  obtain events where run: "processItem D index obj = Inr events" and e: "e \<in> set events"
    using assms by (cases "processItem D index obj") auto
  have "ev_distanceMeters e = JUndefined \<or> \<not> unprintable (ev_distanceMeters e)"
    using run e
    unfolding processItem_def legacy_def Let_def
    by (auto split: sum.splits if_splits
        dest: semantic_visit_distance semantic_activity_distance timeline_path_distance
          raw_signal_distance legacy_visit_distance legacy_activity_distance)
  then show ?thesis by auto
qed

lemma throws_pushed:
  assumes "list_all2 reads es evs" and "\<forall>v\<in>set evs. \<not> unprintable (ev_distanceMeters v)"
  shows "throws es \<longleftrightarrow> stats_throw evs"
  using assms
proof (induction es evs rule: list_all2_induct)
  case Nil
  then show ?case by (simp add: throws_def distance_throws_def title_throws_def stats_throw_def)
next
  case (Cons e es v evs)
  then show ?case
    by (auto simp: throws_def distance_throws_def title_throws_def stats_throw_def reads_def)
qed

lemma result_has_stats:
  assumes res: "parseTimelineData D jsonData = Some events" and rd: "list_all2 reads es events"
  shows "\<exists>stats. calculateStats now es = Inr stats"
proof -
  obtain rawItems pushed where run: "collect D 0 rawItems = Inr pushed"
    and sorted: "events = array_sort (\<lambda>a b. date_lt (ev_startTime b) (ev_startTime a)) pushed"
    and quiet: "\<not> stats_throw events"
    using res
    by (auto simp: parseTimelineData_def Let_def split: option.splits sum.splits if_splits)
  have "pushed = concat (map (record_events D rawItems) [0..<length rawItems])"
    using run by (simp add: collect_returns)
  then have "\<forall>v\<in>set events. \<not> unprintable (ev_distanceMeters v)"
    using pushed_distance by (auto simp: sorted set_array_sort record_events_def)
  then have "\<not> throws es" using throws_pushed [OF rd] quiet by simp
  then show ?thesis by (rule calculateStats_returns)
qed

text \<open>
  C3: the result is \<^verbatim>\<open>null\<close> exactly when no record array is located, the located array
  is empty, processing some record throws (whatever the records before it pushed), no
  record pushes an event, or some record pushes a Visit whose title has no primitive
  value, on which \<^verbatim>\<open>calculateStats\<close> throws. A result that is not \<^verbatim>\<open>null\<close> holds the events
  of every record of the array, none of which throws, and at least one event.
\<close>

theorem parse_null_cases:
  "(parseTimelineData D jsonData = None \<longleftrightarrow>
      findDataArray jsonData = None
      \<or> (\<exists>rawItems. findDataArray jsonData = Some rawItems
            \<and> (rawItems = []
                \<or> (\<exists>k<length rawItems. record_throws D rawItems k)
                \<or> (\<forall>k<length rawItems. record_events D rawItems k = [])
                \<or> (\<exists>k<length rawItems. \<exists>e\<in>set (record_events D rawItems k).
                      ev_type e = VISIT \<and> unprintable (ev_title e)))))
   \<and> (\<forall>events. parseTimelineData D jsonData = Some events \<longrightarrow>
         events \<noteq> []
         \<and> (\<exists>rawItems. findDataArray jsonData = Some rawItems
               \<and> (\<forall>k<length rawItems. \<not> record_throws D rawItems k)
               \<and> mset events
                   = mset (concat (map (record_events D rawItems) [0..<length rawItems]))))"
proof (cases "findDataArray jsonData")
  case None
  then show ?thesis by (simp add: parseTimelineData_def)
next
  case (Some rawItems)
  let ?all = "concat (map (record_events D rawItems) [0..<length rawItems])"
  show ?thesis
  proof (cases "\<exists>k<length rawItems. record_throws D rawItems k")
    case True
    then obtain x where "collect D 0 rawItems = Inl x" using collect_throws by blast
    then show ?thesis using Some True by (simp add: parseTimelineData_def)
  next
    case False
    then have run: "collect D 0 rawItems = Inr ?all" by (simp add: collect_returns)
    have ne: "array_sort gt ?all \<noteq> []" if "?all \<noteq> []" for gt :: "EmittedEvent \<Rightarrow> EmittedEvent \<Rightarrow> bool"
      using that mset_array_sort [of gt ?all] by (metis mset_zero_iff)
    have res: "parseTimelineData D jsonData =
        (if rawItems = [] \<or> ?all = [] \<or> stats_throw ?all then None
         else Some (array_sort (\<lambda>a b. date_lt (ev_startTime b) (ev_startTime a)) ?all))"
      using Some run by (simp add: parseTimelineData_def Let_def stats_throw_sort)
    show ?thesis
      unfolding res using Some False ne
      by (simp only: no_events some_event_throws) (auto simp: mset_array_sort)
  qed
qed

subsection \<open>The kind of event of each branch\<close>

lemma semantic_visit_kind:
  "semantic_visit index obj start end = Inr events \<Longrightarrow> e \<in> set events \<Longrightarrow> ev_type e = VISIT"
  unfolding semantic_visit_def Let_def
  by (auto split: option.splits sum.splits if_splits)

lemma semantic_activity_kind:
  "semantic_activity index obj start end = Inr events \<Longrightarrow> e \<in> set events \<Longrightarrow> ev_type e = MOVE"
  unfolding semantic_activity_def Let_def
  by (auto split: option.splits sum.splits if_splits jsval.splits)

lemma path_points_kind:
  "path_points D index st pIdx pts = Inr events \<Longrightarrow> e \<in> set events \<Longrightarrow> ev_type e = POINT"
proof (induction pts arbitrary: pIdx events)
  case Nil
  then show ?case by simp
next
  case (Cons pathPt rest)
  from Cons.prems show ?case
    by (auto split: option.splits sum.splits if_splits dest: Cons.IH)
qed

lemma timeline_path_kind:
  "timeline_path D index st v = Inr events \<Longrightarrow> e \<in> set events \<Longrightarrow> ev_type e = POINT"
  by (cases v) (auto dest: path_points_kind)

lemma raw_signal_kind:
  "raw_signal D index obj = Inr events \<Longrightarrow> e \<in> set events \<Longrightarrow> ev_type e = POINT"
  unfolding raw_signal_def Let_def
  by (auto split: option.splits sum.splits if_splits)

lemma legacy_visit_kind:
  "legacy_visit D index obj placeVisit = Inr events \<Longrightarrow> e \<in> set events \<Longrightarrow> ev_type e = VISIT"
  unfolding legacy_visit_def Let_def
  by (auto split: option.splits sum.splits if_splits)

lemma legacy_activity_kind:
  "legacy_activity D index obj seg = Inr events \<Longrightarrow> e \<in> set events \<Longrightarrow> ev_type e = MOVE"
  unfolding legacy_activity_def Let_def
  by (auto split: option.splits sum.splits if_splits)

lemma truthy_get_not_nullish: "truthy (js_get obj k) \<Longrightarrow> \<not> nullish obj"
  by (cases obj) simp_all

text \<open>
  What the semantic and raw-signal branches do and the legacy branch does not: an event
  of theirs has a valid start time, and a Move of the semantic branch has a label without
  underscores.
\<close>

lemma replace_underscores_clean: "CHR ''_'' \<notin> set (replace_underscores label)"
  by (auto simp: replace_underscores_def)

lemma semantic_activity_label:
  assumes "semantic_activity index obj start end = Inr events" and "e \<in> set events"
  shows "\<exists>label. ev_activityType e = JStr (replace_underscores label)
                \<and> ev_title e = JStr (replace_underscores label)"
  using assms unfolding semantic_activity_def Let_def
  by (auto split: option.splits sum.splits if_splits jsval.splits)

lemma semantic_visit_valid_start:
  "semantic_visit index obj start end = Inr events \<Longrightarrow> e \<in> set events
   \<Longrightarrow> \<not> isNaN_getTime (ev_startTime e)"
  unfolding semantic_visit_def Let_def
  by (auto split: option.splits sum.splits if_splits)

lemma semantic_activity_valid_start:
  "semantic_activity index obj start end = Inr events \<Longrightarrow> e \<in> set events
   \<Longrightarrow> \<not> isNaN_getTime (ev_startTime e)"
  unfolding semantic_activity_def Let_def
  by (auto split: option.splits sum.splits if_splits jsval.splits)

lemma path_points_valid_start:
  "path_points D index st pIdx pts = Inr events \<Longrightarrow> e \<in> set events
   \<Longrightarrow> \<not> isNaN_getTime (ev_startTime e)"
proof (induction pts arbitrary: pIdx events)
  case Nil
  then show ?case by simp
next
  case (Cons pathPt rest)
  from Cons.prems show ?case
    by (auto split: option.splits sum.splits if_splits dest: Cons.IH)
qed

lemma raw_signal_valid_start:
  "raw_signal D index obj = Inr events \<Longrightarrow> e \<in> set events
   \<Longrightarrow> \<not> isNaN_getTime (ev_startTime e)"
  unfolding raw_signal_def Let_def
  by (auto split: option.splits sum.splits if_splits)

subsection \<open>The branch a record takes\<close>

lemma processItem_semantic:
  "\<not> nullish obj \<Longrightarrow> truthy (record_startTime obj) \<Longrightarrow>
   processItem D index obj =
     (case new_Date D (record_startTime obj) of
        Inl x \<Rightarrow> Inl x
      | Inr start \<Rightarrow>
          (case new_Date D (js_or (record_endTime obj) (record_startTime obj)) of
             Inl x \<Rightarrow> Inl x
           | Inr end \<Rightarrow>
               if truthy (js_get obj ''visit'') then semantic_visit index obj start end
               else if truthy (js_get obj ''activity'') then semantic_activity index obj start end
               else timeline_path D index (record_startTime obj) (js_get obj ''timelinePath'')))"
  by (simp add: processItem_def Let_def)

lemma processItem_raw:
  "\<not> nullish obj \<Longrightarrow> \<not> truthy (record_startTime obj) \<Longrightarrow> truthy (js_get obj ''position'') \<Longrightarrow>
   processItem D index obj = raw_signal D index obj"
  by (simp add: processItem_def Let_def)

lemma processItem_legacy:
  "legacy_record obj \<Longrightarrow>
   processItem D index obj =
     (if truthy (legacy_placeVisit obj) then legacy_visit D index obj (legacy_placeVisit obj)
      else if truthy (legacy_activitySegment obj)
      then legacy_activity D index obj (legacy_activitySegment obj)
      else Inr [])"
  by (simp add: processItem_def legacy_record_def legacy_def legacy_placeVisit_def
      legacy_activitySegment_def Let_def)

text \<open>
  C7, as the code has it: a record with both a \<^verbatim>\<open>visit\<close> object and an \<^verbatim>\<open>activity\<close> object
  (both truthy, as every object is) never gives a Move. What it gives is a Visit, except that a record with no start time
  field and a \<^verbatim>\<open>position\<close> is read as a raw signal, whose event is a Point.
\<close>

theorem visit_priority:
  assumes visit: "truthy (js_get obj ''visit'')"
    and activity: "truthy (js_get obj ''activity'')"
    and run: "processItem D index obj = Inr events"
    and e: "e \<in> set events"
  shows "ev_type e \<noteq> MOVE
       \<and> (ev_type e = VISIT
          \<or> (ev_type e = POINT \<and> \<not> truthy (record_startTime obj) \<and> truthy (js_get obj ''position'')))"
proof -
  have nn: "\<not> nullish obj" using visit by (rule truthy_get_not_nullish)
  consider (semantic) "truthy (record_startTime obj)"
    | (raw) "\<not> truthy (record_startTime obj)" "truthy (js_get obj ''position'')"
    | (legacy) "\<not> truthy (record_startTime obj)" "\<not> truthy (js_get obj ''position'')"
    by blast
  then show ?thesis
  proof cases
    case semantic
    then obtain start "end" where "semantic_visit index obj start end = Inr events"
      using run visit by (auto simp: processItem_semantic [OF nn] split: sum.splits)
    then have "ev_type e = VISIT" using e by (rule semantic_visit_kind)
    then show ?thesis by simp
  next
    case raw
    then have "raw_signal D index obj = Inr events"
      using run by (simp add: processItem_raw [OF nn])
    then have "ev_type e = POINT" using e by (rule raw_signal_kind)
    then show ?thesis using raw by simp
  next
    case legacy
    then have lr: "legacy_record obj" using nn by (simp add: legacy_record_def)
    have "truthy (legacy_placeVisit obj)"
      using visit by (simp add: js_or_def legacy_placeVisit_def)
    then have "legacy_visit D index obj (legacy_placeVisit obj) = Inr events"
      using run by (simp add: processItem_legacy [OF lr])
    then have "ev_type e = VISIT" using e by (rule legacy_visit_kind)
    then show ?thesis by simp
  qed
qed

subsection \<open>Zero coordinates\<close>

text \<open>
  C8: a legacy record whose resolved latitude or longitude is the number zero leaves no
  event.
\<close>

theorem legacy_zero_coordinate:
  assumes legacy: "legacy_record obj"
    and zero: "fst (legacy_coords obj) = JNum (Fin 0) \<or> snd (legacy_coords obj) = JNum (Fin 0)"
  shows "emitted (processItem D index obj) = []"
proof (cases "truthy (legacy_placeVisit obj)")
  case True
  then have "\<not> truthy (legacy_visit_lat (js_or (js_get (legacy_placeVisit obj) ''location'') (JObj [])))
           \<or> \<not> truthy (legacy_visit_lng (js_or (js_get (legacy_placeVisit obj) ''location'') (JObj [])))"
    using zero by (auto simp: legacy_coords_def Let_def)
  then have "legacy_visit D index obj (legacy_placeVisit obj) = Inr []"
    by (auto simp: legacy_visit_def Let_def)
  then show ?thesis using True by (simp add: processItem_legacy [OF legacy])
next
  case False
  then have "\<not> truthy (legacy_activity_lat (segment_loc (legacy_activitySegment obj)))
           \<or> \<not> truthy (legacy_activity_lng (segment_loc (legacy_activitySegment obj)))"
    using zero by (auto simp: legacy_coords_def Let_def)
  then have "emitted (legacy_activity D index obj (legacy_activitySegment obj)) = []"
    by (auto simp: legacy_activity_def segment_loc_def Let_def split: sum.splits)
  then show ?thesis using False by (simp add: processItem_legacy [OF legacy])
qed

subsection \<open>Coordinates of a Move\<close>

lemma semantic_activity_coords:
  assumes "semantic_activity index obj start end = Inr events" and "e \<in> set events"
  shows "\<exists>c. parseLatLngString (activity_end obj) = Some c
            \<and> ev_lat e = JNum (fst c) \<and> ev_lng e = JNum (snd c)"
  using assms unfolding semantic_activity_def activity_end_def Let_def
  by (auto split: option.splits sum.splits if_splits jsval.splits)

lemma legacy_activity_coords:
  assumes "legacy_activity D index obj seg = Inr events" and "e \<in> set events"
  shows "ev_lat e = legacy_activity_lat (segment_loc seg)
       \<and> ev_lng e = legacy_activity_lng (segment_loc seg)"
  using assms unfolding legacy_activity_def segment_loc_def Let_def
  by (auto split: option.splits sum.splits if_splits)

lemma move_origin:
  assumes run: "processItem D index obj = Inr events"
    and e: "e \<in> set events" and move: "ev_type e = MOVE"
  shows "(semantic_activity_record obj
          \<and> (\<exists>c. parseLatLngString (activity_end obj) = Some c
                \<and> ev_lat e = JNum (fst c) \<and> ev_lng e = JNum (snd c)))
       \<or> (legacy_activity_record obj
          \<and> ev_lat e = legacy_activity_lat (segment_loc (legacy_activitySegment obj))
          \<and> ev_lng e = legacy_activity_lng (segment_loc (legacy_activitySegment obj)))"
proof -
  have nn: "\<not> nullish obj" using run by (auto simp: processItem_def)
  consider (semantic) "truthy (record_startTime obj)"
    | (raw) "\<not> truthy (record_startTime obj)" "truthy (js_get obj ''position'')"
    | (legacy) "\<not> truthy (record_startTime obj)" "\<not> truthy (js_get obj ''position'')"
    by blast
  then show ?thesis
  proof cases
    case semantic
    then obtain start "end" where branch:
      "(if truthy (js_get obj ''visit'') then semantic_visit index obj start end
        else if truthy (js_get obj ''activity'') then semantic_activity index obj start end
        else timeline_path D index (record_startTime obj) (js_get obj ''timelinePath''))
       = Inr events"
      using run by (auto simp: processItem_semantic [OF nn] split: sum.splits)
    show ?thesis
    proof (cases "truthy (js_get obj ''visit'')")
      case True
      then have "ev_type e = VISIT" using branch e semantic_visit_kind by simp
      then show ?thesis using move by simp
    next
      case nv: False
      show ?thesis
      proof (cases "truthy (js_get obj ''activity'')")
        case True
        then have sa: "semantic_activity index obj start end = Inr events"
          using branch nv by simp
        have "semantic_activity_record obj"
          using nn semantic nv True by (simp add: semantic_activity_record_def)
        then show ?thesis using semantic_activity_coords [OF sa e] by blast
      next
        case False
        then have "ev_type e = POINT" using branch nv e timeline_path_kind by simp
        then show ?thesis using move by simp
      qed
    qed
  next
    case raw
    then have "raw_signal D index obj = Inr events"
      using run by (simp add: processItem_raw [OF nn])
    then have "ev_type e = POINT" using e by (rule raw_signal_kind)
    then show ?thesis using move by simp
  next
    case legacy
    then have lr: "legacy_record obj" using nn by (simp add: legacy_record_def)
    show ?thesis
    proof (cases "truthy (legacy_placeVisit obj)")
      case True
      then have "legacy_visit D index obj (legacy_placeVisit obj) = Inr events"
        using run by (simp add: processItem_legacy [OF lr])
      then have "ev_type e = VISIT" using e by (rule legacy_visit_kind)
      then show ?thesis using move by simp
    next
      case npv: False
      show ?thesis
      proof (cases "truthy (legacy_activitySegment obj)")
        case True
        then have la: "legacy_activity D index obj (legacy_activitySegment obj) = Inr events"
          using run npv by (simp add: processItem_legacy [OF lr])
        have "legacy_activity_record obj"
          using lr npv True by (simp add: legacy_activity_record_def)
        then show ?thesis using legacy_activity_coords [OF la e] by blast
      next
        case False
        then have "events = []" using run npv by (simp add: processItem_legacy [OF lr])
        then show ?thesis using e by simp
      qed
    qed
  qed
qed

lemma semantic_activity_emits:
  assumes rec: "semantic_activity_record obj"
    and c: "parseLatLngString (activity_end obj) = Some c"
    and ok: "activity_ok D obj"
  shows "\<exists>e. processItem D index obj = Inr [e] \<and> ev_type e = MOVE
            \<and> ev_lat e = JNum (fst c) \<and> ev_lng e = JNum (snd c)"
proof -
  have nn: "\<not> nullish obj" and st: "truthy (record_startTime obj)"
    and nv: "\<not> truthy (js_get obj ''visit'')" and act: "truthy (js_get obj ''activity'')"
    using rec by (simp_all add: semantic_activity_record_def)
  obtain label where label: "activity_label obj = JStr label"
    using ok by (cases "activity_label obj") (simp_all add: activity_ok_def)
  have d1: "new_Date D (record_startTime obj) = Inr (D (record_startTime obj))"
    and d2: "new_Date D (js_or (record_endTime obj) (record_startTime obj))
               = Inr (D (js_or (record_endTime obj) (record_startTime obj)))"
    using ok by (simp_all add: activity_ok_def new_Date_def)
  have "processItem D index obj
          = semantic_activity index obj (D (record_startTime obj))
              (D (js_or (record_endTime obj) (record_startTime obj)))"
    using nv act by (simp add: processItem_semantic [OF nn st] d1 d2)
  then show ?thesis
    using c ok label
    by (simp add: semantic_activity_def activity_end_def activity_label_def activity_ok_def Let_def)
qed

lemma semantic_activity_drops:
  assumes rec: "semantic_activity_record obj"
    and no: "parseLatLngString (activity_end obj) = None \<or> \<not> activity_ok D obj"
  shows "emitted (processItem D index obj) = []"
proof -
  have nn: "\<not> nullish obj" and st: "truthy (record_startTime obj)"
    and nv: "\<not> truthy (js_get obj ''visit'')" and act: "truthy (js_get obj ''activity'')"
    using rec by (simp_all add: semantic_activity_record_def)
  show ?thesis
  proof (cases "unprintable (record_startTime obj)
                \<or> unprintable (js_or (record_endTime obj) (record_startTime obj))")
    case True
    then show ?thesis
      by (auto simp: processItem_semantic [OF nn st] new_Date_def)
  next
    case False
    then have "processItem D index obj
          = semantic_activity index obj (D (record_startTime obj))
              (D (js_or (record_endTime obj) (record_startTime obj)))"
      using nv act by (simp add: processItem_semantic [OF nn st] new_Date_def)
    then show ?thesis
      using no False
      by (auto simp: semantic_activity_def activity_end_def activity_label_def activity_ok_def
          Let_def split: option.splits jsval.splits)
  qed
qed

text \<open>
  C9, as the code has it: a Move comes from a semantic activity record, with the
  coordinates of the \<^verbatim>\<open>activity.end\<close> string, or from a legacy activity segment, with the
  coordinates of \<^verbatim>\<open>endLocation\<close>, or of \<^verbatim>\<open>startLocation\<close> when \<^verbatim>\<open>endLocation\<close> is falsy. A
  semantic activity record gives its Move, whatever the start coordinate is, exactly when
  its end coordinate parses and \<open>activity_ok\<close> holds: the start time is a valid instant,
  the label is a string (or falsy, and then replaced by \<^verbatim>\<open>MOVE\<close>), and none of the start
  time, the end time and \<^verbatim>\<open>activity.distanceMeters\<close> is an object without a primitive
  value, whose conversion throws. Otherwise the record leaves no event.
\<close>

theorem move_coordinates:
  "(processItem D index obj = Inr events \<and> e \<in> set events \<and> ev_type e = MOVE \<longrightarrow>
      (semantic_activity_record obj
        \<and> (\<exists>c. parseLatLngString (activity_end obj) = Some c
              \<and> ev_lat e = JNum (fst c) \<and> ev_lng e = JNum (snd c)))
      \<or> (legacy_activity_record obj
          \<and> ev_lat e = legacy_activity_lat (segment_loc (legacy_activitySegment obj))
          \<and> ev_lng e = legacy_activity_lng (segment_loc (legacy_activitySegment obj))))
   \<and> (semantic_activity_record obj \<and> parseLatLngString (activity_end obj) = Some c
        \<and> activity_ok D obj \<longrightarrow>
        (\<exists>e'. processItem D index obj = Inr [e'] \<and> ev_type e' = MOVE
               \<and> ev_lat e' = JNum (fst c) \<and> ev_lng e' = JNum (snd c)))
   \<and> (semantic_activity_record obj
        \<and> (parseLatLngString (activity_end obj) = None \<or> \<not> activity_ok D obj) \<longrightarrow>
        emitted (processItem D index obj) = [])
   \<and> segment_loc seg
       = (if truthy (js_get seg ''endLocation'') then js_get seg ''endLocation''
          else js_get seg ''startLocation'')"
  using move_origin [of D index obj events e] semantic_activity_emits [of obj c D index]
    semantic_activity_drops [of obj D index]
  by (auto simp: segment_loc_def js_or_def)


subsection \<open>Concrete documents\<close>

text \<open>
  C2: the legacy branch builds its dates without testing them. A legacy visit whose
  \<^verbatim>\<open>startTimestamp\<close> is \<^verbatim>\<open>"not a date"\<close> is emitted, with an Invalid Date for its start;
  the semantic branches test \<^verbatim>\<open>!isNaN(start.getTime())\<close> and drop such a record.
\<close>

theorem legacy_visit_invalid_timestamp:
  "map_option (map (\<lambda>e. (ev_id e, ev_type e, ev_startTime e)))
     (parseTimelineData iso_Date (legacy_visit_doc (JStr ''not a date'')))
   = Some [(''legacy-v-0'', VISIT, InvalidDate)]"
  by (simp add: legacy_visit_doc_def doc_eval record_eval date_eval e7_home_lat e7_home_lng
      del: e7ToFloat.simps)

text \<open>
  C6: the legacy branch stores \<^verbatim>\<open>activityType\<close> as the record has it. A legacy activity
  segment of type \<^verbatim>\<open>IN_PASSENGER_VEHICLE\<close> gives a Move whose \<^verbatim>\<open>activityType\<close> keeps its
  underscores; the semantic branch replaces them.
\<close>

theorem legacy_activity_keeps_underscores:
  "map_option (map (\<lambda>e. (ev_id e, ev_type e, ev_activityType e)))
     (parseTimelineData iso_Date (legacy_activity_doc (JStr ''IN_PASSENGER_VEHICLE'')))
   = Some [(''legacy-a-0'', MOVE, JStr ''IN_PASSENGER_VEHICLE'')]"
  by (simp add: legacy_activity_doc_def doc_eval record_eval date_eval e7_end_lat e7_end_lng
      del: e7ToFloat.simps)

text \<open>
  Names as the document has them: a visit named with the number 1 and a visit named with
  the string \<^verbatim>\<open>"1"\<close> give two events with these titles.
\<close>

lemma untyped_names:
  "map_option (map (\<lambda>e. (ev_type e, ev_title e)))
     (parseTimelineData iso_Date (JArr [named_visit (JNum (Fin 1)), named_visit (JStr ''1'')]))
   = Some [(VISIT, JNum (Fin 1)), (VISIT, JStr ''1'')]"
  by (simp add: named_visit_def doc_eval record_eval date_eval e7_home_lat e7_home_lng
      del: e7ToFloat.simps)

text \<open>
  A legacy visit alone gives a result of one event. Followed by a record that is \<^verbatim>\<open>null\<close>
  (reading a property of it throws) it gives \<^verbatim>\<open>null\<close>, although the visit has pushed its
  event. Named with an object that has no primitive value it gives \<^verbatim>\<open>null\<close>, as do an
  empty record array and a record of no known shape.
\<close>

theorem parse_null_cases_witness:
  "map_option (map ev_id) (parseTimelineData iso_Date (JArr [named_visit (JStr ''Home'')]))
     = Some [''legacy-v-0'']
   \<and> map ev_id (record_events iso_Date [named_visit (JStr ''Home''), JNull] 0) = [''legacy-v-0'']
   \<and> record_throws iso_Date [named_visit (JStr ''Home''), JNull] 1
   \<and> parseTimelineData iso_Date (JArr [named_visit (JStr ''Home''), JNull]) = None
   \<and> parseTimelineData iso_Date (JArr [named_visit (JObj [(''toString'', JNull)])]) = None
   \<and> parseTimelineData iso_Date (JObj [(''timelineObjects'', JArr [])]) = None
   \<and> parseTimelineData iso_Date (JArr [JObj [(''note'', JStr ''no location'')]]) = None"
  using parse_null_cases [of iso_Date "JArr [named_visit (JStr ''Home''), JNull]"]
  by (simp add: named_visit_def record_events_def record_throws_def doc_eval record_eval
      date_eval e7_home_lat e7_home_lng del: e7ToFloat.simps)

text \<open>
  A record with a \<^verbatim>\<open>visit\<close> object, an \<^verbatim>\<open>activity\<close> object and a \<^verbatim>\<open>position\<close>, and no start
  time: its event is a Point.
\<close>

theorem visit_priority_counterexample:
  "js_get visit_activity_position_record ''visit'' = JObj []
   \<and> js_get visit_activity_position_record ''activity'' = JObj []
   \<and> map ev_type (emitted (processItem iso_Date 0 visit_activity_position_record)) = [POINT]"
  by (simp add: visit_activity_position_record_def record_eval date_eval parse_1_2
      del: parseLatLngString.simps)

text \<open>A semantic segment with both objects: its event is the Visit.\<close>

theorem visit_priority_witness:
  "map (\<lambda>e. (ev_type e, ev_title e)) (emitted (processItem iso_Date 3 visit_and_activity_record))
     = [(VISIT, JStr ''Cafe X'')]"
proof -
  obtain events where run: "processItem iso_Date 3 visit_and_activity_record = Inr events"
    and evs: "map (\<lambda>e. (ev_type e, ev_title e)) events = [(VISIT, JStr ''Cafe X'')]"
    by (simp add: visit_and_activity_record_def record_eval date_eval parse_cafe
        del: parseLatLngString.simps)
  then obtain e where e: "events = [e]" by auto
  have v: "truthy (js_get visit_and_activity_record ''visit'')"
    by (simp add: visit_and_activity_record_def)
  have a: "truthy (js_get visit_and_activity_record ''activity'')"
    by (simp add: visit_and_activity_record_def)
  have "ev_type e \<noteq> MOVE"
    using visit_priority [OF v a run, of e] e by simp
  then show ?thesis using run evs by simp
qed

text \<open>A legacy visit at latitude 0, longitude 0 leaves no event.\<close>

theorem legacy_zero_coordinate_witness:
  "legacy_record zero_visit_record
   \<and> legacy_coords zero_visit_record = (JNum (Fin 0), JNum (Fin 0))
   \<and> processItem iso_Date 0 zero_visit_record = Inr []"
  using legacy_zero_coordinate [of zero_visit_record iso_Date 0]
  by (simp add: zero_visit_record_def legacy_record_def legacy_coords_def legacy_placeVisit_def
      record_eval date_eval)

text \<open>
  A semantic activity record whose end coordinate parses and whose start time does not:
  no Move. The same record with a start time that is an object without a primitive
  value: \<^verbatim>\<open>new Date\<close> throws.
\<close>

theorem move_coordinates_counterexample:
  "semantic_activity_record (activity_record (JStr ''garbage''))
   \<and> parseLatLngString (activity_end (activity_record (JStr ''garbage''))) = Some (Fin 1, Fin 2)
   \<and> processItem iso_Date 0 (activity_record (JStr ''garbage'')) = Inr []
   \<and> semantic_activity_record (activity_record (JObj [(''toString'', JNull)]))
   \<and> parseLatLngString (activity_end (activity_record (JObj [(''toString'', JNull)])))
       = Some (Fin 1, Fin 2)
   \<and> processItem iso_Date 0 (activity_record (JObj [(''toString'', JNull)])) = Inl TypeError"
  by (simp add: activity_record_def semantic_activity_record_def activity_end_def record_eval
      date_eval parse_1_2 del: parseLatLngString.simps)

text \<open>The same record with a valid start time and no start coordinate: its Move, at the end.\<close>

theorem move_coordinates_witness:
  "semantic_activity_record (activity_record (JStr ''2024-01-01T10:00:00Z''))
   \<and> js_get (js_get (activity_record (JStr ''2024-01-01T10:00:00Z'')) ''activity'') ''start''
       = JUndefined
   \<and> map (\<lambda>e. (ev_type e, ev_lat e, ev_lng e, ev_activityType e))
        (emitted (processItem iso_Date 0 (activity_record (JStr ''2024-01-01T10:00:00Z''))))
      = [(MOVE, JNum (Fin 1), JNum (Fin 2), JStr ''IN PASSENGER VEHICLE'')]"
  using move_coordinates [of iso_Date 0 "activity_record (JStr ''2024-01-01T10:00:00Z'')" _ _
      "(Fin 1, Fin 2)"]
  by (simp add: activity_record_def semantic_activity_record_def activity_end_def record_eval
      date_eval parse_1_2 replace_underscores_def show_nat.simps del: parseLatLngString.simps)

end
